theory Spec2Isabelle
  imports Complex_Main "HOL-Library.Word" "HOL-Library.Log_Nat" "HOL-Library.AList"
begin

unbundle bit_operations_syntax

section \<open>Script values and the evaluation stack\<close>

text \<open>
  The interpreter is used through its typed stack only.  A script value is one of the
  Lua types the engine dispatches on.  A table is an association list from keys to
  values; metatables are not modelled.  A number is a finite \<open>double\<close>,
  represented by the rational it denotes.  A function is identified by the body it
  was compiled from.
\<close>

datatype lua_value =
    LNil
  | LBoolean bool
  | LNumber rat
  | LString string
  | LTable "(lua_value \<times> lua_value) list"
  | LFunction string

type_synonym lua_table = "(lua_value \<times> lua_value) list"

text \<open>The stack is a list whose head is the top (index \<open>-1\<close>).\<close>

type_synonym lua_stack = "lua_value list"

definition CR :: char where "CR = CHR 0x0D"
definition LF :: char where "LF = CHR 0x0A"
definition NUL :: char where "NUL = CHR 0x00"
definition CRLF :: string where "CRLF = [CR, LF]"

definition lua_rawget :: "lua_table \<Rightarrow> lua_value \<Rightarrow> lua_value" where
  "lua_rawget t k = (case map_of t k of None \<Rightarrow> LNil | Some v \<Rightarrow> v)"

definition lua_rawset :: "lua_table \<Rightarrow> lua_value \<Rightarrow> lua_value \<Rightarrow> lua_table" where
  "lua_rawset t k v = (if v = LNil then AList.delete k t else AList.update k v t)"

text \<open>
  \<open>lua_settable(lua, -3)\<close>: the value is on top, the key below it, the table
  below the key.  Key and value are popped.  When the slot at \<open>-3\<close> holds no
  table (or does not exist) the interpreter raises: \<open>None\<close>.
\<close>

fun lua_settable3 :: "lua_stack \<Rightarrow> lua_stack option" where
  "lua_settable3 (v # k # LTable t # rest) = Some (LTable (lua_rawset t k v) # rest)"
| "lua_settable3 _ = None"

section \<open>Decimal integers\<close>

definition is_digit :: "char \<Rightarrow> bool" where
  "is_digit c = (48 \<le> (of_char c :: nat) \<and> (of_char c :: nat) \<le> 57)"

definition digit_val :: "char \<Rightarrow> nat" where
  "digit_val c = of_char c - 48"

definition digit_char :: "nat \<Rightarrow> char" where
  "digit_char d = ''0123456789'' ! d"

fun digits :: "nat \<Rightarrow> string" where
  "digits n = (if n < 10 then [digit_char n] else digits (n div 10) @ [digit_char (n mod 10)])"

declare digits.simps [simp del]

text \<open>\<open>std::to_string\<close> on a signed integer.\<close>

definition to_string :: "int \<Rightarrow> string" where
  "to_string i = (if i < 0 then CHR ''-'' # digits (nat (- i)) else digits (nat i))"

definition parse_nat :: "string \<Rightarrow> nat option" where
  "parse_nat s = (if s \<noteq> [] \<and> list_all is_digit s
                  then Some (foldl (\<lambda>a c. 10 * a + digit_val c) 0 s) else None)"

text \<open>
  Modelled from the spec: \<open>tendisplus::stoll\<close> is declared outside the source
  file.  It reads a whole string as a decimal 64-bit signed integer (an optional
  minus sign, then ASCII digits) and fails on anything else.
\<close>

definition stoll :: "string \<Rightarrow> int option" where
  "stoll s =
     (if s \<noteq> [] \<and> hd s = CHR ''-''
      then (case parse_nat (tl s) of
              None \<Rightarrow> None
            | Some n \<Rightarrow> if n \<le> 2 ^ 63 then Some (- int n) else None)
      else (case parse_nat s of
              None \<Rightarrow> None
            | Some n \<Rightarrow> if n < 2 ^ 63 then Some (int n) else None))"

text \<open>\<open>string2ll\<close>: the value is written only on success.\<close>

definition string2ll :: "string \<Rightarrow> int option" where
  "string2ll s = stoll s"

section \<open>Numbers of the interpreter\<close>

text \<open>
  \<open>lua_Number\<close> is \<open>double\<close>.  A conversion or an arithmetic result is rounded
  to the nearest value with a 53-bit significand, ties to even.  Overflow to
  infinity and the subnormal range are outside the magnitudes this engine produces
  and are not modelled.
\<close>

definition flog2 :: "rat \<Rightarrow> int" where
  "flog2 a = (let p = fst (quotient_of a); q = snd (quotient_of a);
                  d = bitlen p - bitlen q
              in if a < 2 powi d then d - 1 else d)"

definition round_half_even :: "rat \<Rightarrow> int" where
  "round_half_even q = (let f = \<lfloor>q\<rfloor>; r = q - of_int f
                        in if r < 1 / 2 then f
                           else if 1 / 2 < r then f + 1
                           else if even f then f else f + 1)"

definition round_double :: "rat \<Rightarrow> rat" where
  "round_double x =
     (if x = 0 then 0
      else let u = 2 powi (flog2 \<bar>x\<bar> - 52)
           in sgn x * of_int (round_half_even (\<bar>x\<bar> / u)) * u)"

text \<open>\<open>(lua_Number)value\<close> for a 64-bit integer.\<close>

definition to_lua_Number :: "int \<Rightarrow> rat" where
  "to_lua_Number i = round_double (of_int i)"

text \<open>
  The conversion of a \<open>double\<close> to \<open>int64_t\<close> truncates towards zero; its
  behaviour is undefined when the truncated value is out of range (\<open>None\<close>).
\<close>

definition to_int64 :: "rat \<Rightarrow> int option" where
  "to_int64 x = (let t = (if 0 \<le> x then \<lfloor>x\<rfloor> else \<lceil>x\<rceil>)
                 in if - (2 ^ 63) \<le> t \<and> t < 2 ^ 63 then Some t else None)"

section \<open>Wire protocol to script value\<close>

text \<open>
  A reply pointer is the list of bytes from the pointer to the end of the buffer;
  the terminating NUL is the end of the list.  \<open>None\<close> stands for a run that has
  no defined result: a read of an uninitialised integer, a read outside the
  buffer, or an error raised by the interpreter.
\<close>

fun strchr :: "string \<Rightarrow> char \<Rightarrow> string option" where
  "strchr [] c = None"
| "strchr (x # xs) c = (if x = c then Some (x # xs) else if x = NUL then None else strchr xs c)"

text \<open>\<open>string(reply+1, p-reply-1)\<close> for \<open>p\<close> inside \<open>reply\<close>.\<close>

definition line_before :: "string \<Rightarrow> string \<Rightarrow> string" where
  "line_before reply p = take (length reply - length p - 1) (tl reply)"

definition redisProtocolToLuaType_Int :: "lua_stack \<Rightarrow> string \<Rightarrow> (lua_stack \<times> string) option" where
  "redisProtocolToLuaType_Int lua reply =
     (case strchr (tl reply) CR of
        None \<Rightarrow> None
      | Some p \<Rightarrow>
          (case string2ll (line_before reply p) of
             None \<Rightarrow> None
           | Some v \<Rightarrow> Some (LNumber (to_lua_Number v) # lua, drop 2 p)))"

definition redisProtocolToLuaType_Bulk :: "lua_stack \<Rightarrow> string \<Rightarrow> (lua_stack \<times> string) option" where
  "redisProtocolToLuaType_Bulk lua reply =
     (case strchr (tl reply) CR of
        None \<Rightarrow> None
      | Some p \<Rightarrow>
          (case string2ll (line_before reply p) of
             None \<Rightarrow> None
           | Some bulklen \<Rightarrow>
               if bulklen = - 1 then Some (LBoolean False # lua, drop 2 p)
               else if bulklen < 0 \<or> int (length (drop 2 p)) < bulklen then None
               else Some (LString (take (nat bulklen) (drop 2 p)) # lua,
                          drop (nat bulklen + 2) (drop 2 p))))"

definition redisProtocolToLuaType_Status :: "lua_stack \<Rightarrow> string \<Rightarrow> (lua_stack \<times> string) option" where
  "redisProtocolToLuaType_Status lua reply =
     (case strchr (tl reply) CR of
        None \<Rightarrow> None
      | Some p \<Rightarrow>
          map_option (\<lambda>l. (l, drop 2 p))
            (lua_settable3 (LString (line_before reply p) # LString ''ok'' # LTable [] # lua)))"

definition redisProtocolToLuaType_Error :: "lua_stack \<Rightarrow> string \<Rightarrow> (lua_stack \<times> string) option" where
  "redisProtocolToLuaType_Error lua reply =
     (case strchr (tl reply) CR of
        None \<Rightarrow> None
      | Some p \<Rightarrow>
          map_option (\<lambda>l. (l, drop 2 p))
            (lua_settable3 (LString (line_before reply p) # LString ''err'' # LTable [] # lua)))"

text \<open>
  The loop of \<open>redisProtocolToLuaType_MultiBulk\<close>, with \<open>k = mbulklen - j\<close>
  iterations left.  The counter \<open>j\<close> is an \<open>int\<close>: \<open>j+1\<close> overflows at
  \<open>INT_MAX\<close>.  The decoder of the elements is the parameter \<open>dec\<close>.
\<close>

primrec multibulk_loop ::
  "(lua_stack \<times> string \<Rightarrow> (lua_stack \<times> string) option) \<Rightarrow> nat \<Rightarrow> nat \<Rightarrow>
     lua_stack \<times> string \<Rightarrow> (lua_stack \<times> string) option" where
  "multibulk_loop dec 0 j s = Some s"
| "multibulk_loop dec (Suc k) j s =
     (if 2147483647 \<le> j then None
      else Option.bind (dec (LNumber (of_nat (j + 1)) # fst s, snd s)) (\<lambda>s1.
           Option.bind (lua_settable3 (fst s1)) (\<lambda>l2.
           multibulk_loop dec k (j + 1) (l2, snd s1))))"

definition redisProtocolToLuaType_MultiBulk ::
  "(lua_stack \<times> string \<Rightarrow> (lua_stack \<times> string) option) \<Rightarrow>
     lua_stack \<Rightarrow> string \<Rightarrow> (lua_stack \<times> string) option" where
  "redisProtocolToLuaType_MultiBulk dec lua reply =
     Option.bind (strchr (tl reply) CR) (\<lambda>p.
     Option.bind (string2ll (line_before reply p)) (\<lambda>mbulklen.
       if mbulklen = - 1 then Some (LBoolean False # lua, drop 2 p)
       else multibulk_loop dec (nat mbulklen) 0 (LTable [] # lua, drop 2 p)))"

lemma multibulk_loop_mono [partial_function_mono]:
  assumes "\<And>x. mono_option (\<lambda>f. F f x)"
  shows "mono_option (\<lambda>f. multibulk_loop (F f) k j s)"
  using assms
proof (induction k arbitrary: j s)
  case 0
  show ?case by (simp add: option.const_mono)
next
  case (Suc k)
  show ?case
    unfolding multibulk_loop.simps
    by (intro partial_function_mono Suc.prems Suc.IH)
qed

lemma redisProtocolToLuaType_MultiBulk_mono [partial_function_mono]:
  assumes "\<And>x. mono_option (\<lambda>f. F f x)"
  shows "mono_option (\<lambda>f. redisProtocolToLuaType_MultiBulk (F f) lua reply)"
  unfolding redisProtocolToLuaType_MultiBulk_def
  by (intro partial_function_mono multibulk_loop_mono assms)

text \<open>
  The dispatch on the first byte.  The \<open>switch\<close> has no \<open>default\<close> branch: any
  other byte, the terminator included, leaves stack and pointer as they are.
\<close>

partial_function (option) redisProtocolToLuaType_rec ::
  "lua_stack \<times> string \<Rightarrow> (lua_stack \<times> string) option" where
  "redisProtocolToLuaType_rec s =
     (let lua = fst s; reply = snd s in
      if reply = [] then Some (lua, reply)
      else if hd reply = CHR '':'' then redisProtocolToLuaType_Int lua reply
      else if hd reply = CHR ''$'' then redisProtocolToLuaType_Bulk lua reply
      else if hd reply = CHR ''+'' then redisProtocolToLuaType_Status lua reply
      else if hd reply = CHR ''-'' then redisProtocolToLuaType_Error lua reply
      else if hd reply = CHR ''*''
        then redisProtocolToLuaType_MultiBulk redisProtocolToLuaType_rec lua reply
      else Some (lua, reply))"

definition redisProtocolToLuaType :: "lua_stack \<Rightarrow> string \<Rightarrow> (lua_stack \<times> string) option" where
  "redisProtocolToLuaType lua reply = redisProtocolToLuaType_rec (lua, reply)"

section \<open>Script value to wire protocol\<close>

text \<open>
  Modelled from the spec: the reply formatters of \<open>Command\<close> are declared
  outside the source file.  \<open>fmtBulk\<close> is the bulk reply (length prefix, then
  the bytes), \<open>fmtNull\<close> the nil bulk reply, \<open>fmtOne\<close> the integer reply 1,
  \<open>fmtLongLong\<close> the integer reply and \<open>fmtMultiBulkLen\<close> the header of a
  multi-bulk reply.
\<close>

definition fmtBulk :: "string \<Rightarrow> string" where
  "fmtBulk s = CHR ''$'' # to_string (int (length s)) @ CRLF @ s @ CRLF"

definition fmtNull :: string where
  "fmtNull = ''$-1'' @ CRLF"

definition fmtOne :: string where
  "fmtOne = '':1'' @ CRLF"

definition fmtLongLong :: "int \<Rightarrow> string" where
  "fmtLongLong v = CHR '':'' # to_string v @ CRLF"

definition fmtMultiBulkLen :: "int \<Rightarrow> string" where
  "fmtMultiBulkLen n = CHR ''*'' # to_string n @ CRLF"

text \<open>
  Modelled from the spec: \<open>redis_port::strmapchars\<close> is declared outside the
  source file.  Every character of the string that occurs among the first
  \<open>setlen\<close> characters of \<open>from\<close> is replaced by the character at the same
  position of \<open>to\<close>.
\<close>

fun mapchar :: "(char \<times> char) list \<Rightarrow> char \<Rightarrow> char" where
  "mapchar [] c = c"
| "mapchar (ft # m) c = (if c = fst ft then snd ft else mapchar m c)"

definition strmapchars :: "string \<Rightarrow> string \<Rightarrow> string \<Rightarrow> nat \<Rightarrow> string" where
  "strmapchars s from to setlen = map (mapchar (take setlen (zip from to))) s"

text \<open>
  \<open>string err = lua_tostring(lua, -1)\<close> builds the string from a C string: the
  bytes before the first NUL.
\<close>

definition c_string :: "string \<Rightarrow> string" where
  "c_string s = takeWhile (\<lambda>c. c \<noteq> NUL) s"

text \<open>
  The \<open>while (1)\<close> loop over the indices \<open>j, j+1, ...\<close> of a table stops at
  the first index without an entry.  Every index met is a key of the table, which
  bounds the loop.
\<close>

definition index_keys_from :: "lua_table \<Rightarrow> nat \<Rightarrow> lua_value set" where
  "index_keys_from t j = {k \<in> fst ` set t. \<exists>n\<ge>j. k = LNumber (of_nat n)}"

lemma lua_rawget_present: "lua_rawget t k \<noteq> LNil \<Longrightarrow> (k, lua_rawget t k) \<in> set t"
  by (auto simp: lua_rawget_def split: option.splits dest: map_of_SomeD)

lemma index_keys_from_step:
  assumes "lua_rawget t (LNumber (of_nat j)) \<noteq> LNil"
  shows "card (index_keys_from t (Suc j)) < card (index_keys_from t j)"
proof (rule psubset_card_mono)
  show "finite (index_keys_from t j)"
    by (simp add: index_keys_from_def)
  have "LNumber (of_nat j) \<in> fst ` set t"
    using lua_rawget_present [OF assms] by force
  then have "LNumber (of_nat j) \<in> index_keys_from t j"
    by (auto simp: index_keys_from_def)
  moreover have "LNumber (of_nat j) \<notin> index_keys_from t (Suc j)"
    by (auto simp: index_keys_from_def)
  moreover have "index_keys_from t (Suc j) \<subseteq> index_keys_from t j"
    by (auto simp: index_keys_from_def)
  ultimately show "index_keys_from t (Suc j) \<subset> index_keys_from t j"
    by blast
qed

function table_array :: "lua_table \<Rightarrow> nat \<Rightarrow> lua_value list" where
  "table_array t j =
     (let v = lua_rawget t (LNumber (of_nat j))
      in if v = LNil then [] else v # table_array t (Suc j))"
  by pat_completeness auto
termination
  by (relation "measure (\<lambda>(t, j). card (index_keys_from t j))")
     (auto intro: index_keys_from_step)

declare table_array.simps [simp del]

lemma table_array_member:
  "v \<in> set (table_array t j) \<Longrightarrow> \<exists>k. (k, v) \<in> set t"
proof (induction t j rule: table_array.induct)
  case (1 t j)
  show ?case
  proof (cases "lua_rawget t (LNumber (of_nat j)) = LNil")
    case True
    with "1.prems" show ?thesis
      by (simp add: table_array.simps [of t j])
  next
    case False
    with "1.prems"
    have "v = lua_rawget t (LNumber (of_nat j)) \<or> v \<in> set (table_array t (Suc j))"
      by (simp add: table_array.simps [of t j] Let_def)
    then show ?thesis
      using False "1.IH" lua_rawget_present by blast
  qed
qed

lemma table_entry_size: "(k, v) \<in> set t \<Longrightarrow> size v < size (LTable t)"
  by (induction t) auto

text \<open>
  The reply for the value on top of the stack, by its type.  A number goes through
  the conversion to \<open>int64_t\<close>.  In a table the \<open>err\<close> field is looked at
  first, then the \<open>ok\<close> field, then the array part.
\<close>

function luaValueToRedisReply :: "lua_value \<Rightarrow> string option" where
  "luaValueToRedisReply (LString s) = Some (fmtBulk s)"
| "luaValueToRedisReply (LBoolean b) = Some (if b then fmtOne else fmtNull)"
| "luaValueToRedisReply (LNumber n) = map_option fmtLongLong (to_int64 n)"
| "luaValueToRedisReply (LTable t) =
     (case lua_rawget t (LString ''err'') of
        LString err \<Rightarrow>
          Some (CHR ''-'' # strmapchars (c_string err) [CR, LF] ''  '' 2 @ CRLF)
      | _ \<Rightarrow>
        (case lua_rawget t (LString ''ok'') of
           LString ok \<Rightarrow> Some (fmtBulk (strmapchars (c_string ok) [CR, LF] ''  '' 2))
         | _ \<Rightarrow>
           map_option (\<lambda>rsp. fmtMultiBulkLen (int (length rsp)) @ concat rsp)
             (those (map luaValueToRedisReply (table_array t 1)))))"
| "luaValueToRedisReply LNil = Some fmtNull"
| "luaValueToRedisReply (LFunction f) = Some fmtNull"
  by pat_completeness auto
termination
  by (relation "measure size") (auto dest!: table_array_member table_entry_size)

text \<open>\<open>luaReplyToRedisReply\<close> converts the value on top of the stack and pops it.\<close>

fun luaReplyToRedisReply :: "lua_stack \<Rightarrow> (string \<times> lua_stack) option" where
  "luaReplyToRedisReply [] = None"
| "luaReplyToRedisReply (v # lua) = map_option (\<lambda>repl. (repl, lua)) (luaValueToRedisReply v)"

section \<open>The wire grammar\<close>

text \<open>
  The replies of the five-tag grammar, as the data model of the specification
  lists them, and their wire form.  \<open>well_formed\<close> keeps a reply inside the
  grammar and inside the sizes the decoder counts with: an integer has 64 bits, a
  status or error line holds no CR and (the buffer being a C string) no NUL, the
  length of a bulk string fits 64 bits and the element counter of an array is an
  \<open>int\<close>.  \<open>decoded_value\<close> is the script value of a reply and
  \<open>round_trips\<close> says that decoding the wire form on an empty stack and encoding
  the value gives the wire form back.
\<close>

datatype reply =
    Integer int
  | Bulk string
  | Nil
  | Status string
  | Error string
  | Array "reply list"
  | NilArray

fun wire :: "reply \<Rightarrow> string" where
  "wire (Integer i) = fmtLongLong i"
| "wire (Bulk s) = fmtBulk s"
| "wire Nil = fmtNull"
| "wire (Status s) = CHR ''+'' # s @ CRLF"
| "wire (Error s) = CHR ''-'' # s @ CRLF"
| "wire (Array rs) = fmtMultiBulkLen (int (length rs)) @ concat (map wire rs)"
| "wire NilArray = ''*-1'' @ CRLF"

fun well_formed :: "reply \<Rightarrow> bool" where
  "well_formed (Integer i) = (- (2 ^ 63) \<le> i \<and> i < 2 ^ 63)"
| "well_formed (Bulk s) = (length s < 2 ^ 63)"
| "well_formed Nil = True"
| "well_formed (Status s) = (CR \<notin> set s \<and> NUL \<notin> set s)"
| "well_formed (Error s) = (CR \<notin> set s \<and> NUL \<notin> set s)"
| "well_formed (Array rs) = (length rs < 2 ^ 31 \<and> (\<forall>r \<in> set rs. well_formed r))"
| "well_formed NilArray = True"

fun array_entries :: "nat \<Rightarrow> lua_value list \<Rightarrow> lua_table" where
  "array_entries j [] = []"
| "array_entries j (v # vs) = (LNumber (of_nat (Suc j)), v) # array_entries (Suc j) vs"

fun decoded_value :: "reply \<Rightarrow> lua_value" where
  "decoded_value (Integer i) = LNumber (to_lua_Number i)"
| "decoded_value (Bulk s) = LString s"
| "decoded_value Nil = LBoolean False"
| "decoded_value (Status s) = LTable [(LString ''ok'', LString s)]"
| "decoded_value (Error s) = LTable [(LString ''err'', LString s)]"
| "decoded_value (Array rs) = LTable (array_entries 0 (map decoded_value rs))"
| "decoded_value NilArray = LBoolean False"

definition round_trips :: "reply \<Rightarrow> bool" where
  "round_trips r =
     (case redisProtocolToLuaType [] (wire r) of
        Some ([v], []) \<Rightarrow> luaReplyToRedisReply [v] = Some (wire r, [])
      | _ \<Rightarrow> False)"

text \<open>The five tags of the wire grammar.\<close>

definition grammar_tags :: "char set" where
  "grammar_tags = {CHR '':'', CHR ''$'', CHR ''+'', CHR ''-'', CHR ''*''}"

section \<open>The engine and its collaborators\<close>

text \<open>
  The context of a session: authentication, selected database, the
  multi-statement flag and the client flags.
\<close>

record session_ctx =
  authed :: bool
  dbId :: nat
  inMulti :: bool
  ctx_flags :: "32 word"

record session =
  sess_args :: "string list"
  sess_ctx :: session_ctx
  inLua :: bool

text \<open>
  Modelled from the spec: the descriptor of a command is declared outside the
  source file.  It carries the four flags the gateway tests:
  \<open>CMD_NOSCRIPT\<close>, \<open>CMD_WRITE\<close>, \<open>CMD_RANDOM\<close> and
  \<open>CMD_SORT_FOR_SCRIPT\<close>.
\<close>

record cmd_flags =
  cmd_noscript :: bool
  cmd_write :: bool
  cmd_random :: bool
  cmd_sort_for_script :: bool

text \<open>
  The calls the engine makes to the interpreter and to its collaborators are
  logged in the order in which the code makes them.
\<close>

datatype event =
    EvSrand48 int
  | EvGetGlobal string
  | EvLoadBuffer string
  | EvPcallChunk string
  | EvSetGlobal string lua_value
  | EvLockKeys "nat list"
  | EvSetHook
  | EvPcallFunction string
  | EvRunSessionCmd "string list"

text \<open>
  The state of one \<open>LuaState\<close> object: the interpreter (stack and globals), the
  two sessions, the flags of the run and the generator.  \<open>store\<close> is the state
  of the server behind the command executor.
\<close>

record 'db LuaState =
  stack :: lua_stack
  globals :: "string \<rightharpoonup> lua_value"
  sess :: "session option"
  fakeSess :: "session option"
  inuse :: int
  lua_random_dirty :: bool
  lua_write_dirty :: bool
  lua_replicate_commands :: bool
  lua_timedout :: bool
  lua_time_start :: int
  rand :: "48 word"
  hook :: bool
  store :: 'db
  trace :: "event list"

text \<open>
  What the source file takes from outside: the command table and executor, the
  lock manager, the clock and configuration, the digest, and the interpreter
  (compiling a chunk, running a function, formatting a number, debug
  information).  \<open>lua_call_sort\<close> is the call of a value (what the script's
  \<open>table.sort\<close> holds) on an array, with a comparison function when one is
  passed: it gives the value the call raises, if it raises, and the array as the
  call leaves it.
\<close>

record 'db env =
  precheck :: "session \<Rightarrow> string + string"
  commandMap :: "string \<rightharpoonup> cmd_flags"
  runSessionCmd :: "session \<Rightarrow> 'db \<Rightarrow> (string + string) \<times> session \<times> 'db"
  getAllKeysLocked :: "session \<Rightarrow> string list \<Rightarrow> nat list \<Rightarrow> string option"
  isClusterEnabled :: bool
  isRunning :: bool
  CLIENT_READONLY :: "32 word"
  luaTimeLimit :: int
  msSinceEpoch :: int
  SHA1 :: "string \<Rightarrow> 160 word"
  luaL_loadbuffer :: "string \<Rightarrow> string option"
  lua_pcall_chunk :: "string \<Rightarrow> string option"
  lua_pcall_function :: "lua_value \<Rightarrow> 'db LuaState \<Rightarrow> (string + lua_value) \<times> 'db LuaState"
  lua_getinfo :: "(string \<times> int) option"
  format_17g :: "rat \<Rightarrow> string"
  luaL_checkint :: "lua_value \<Rightarrow> int option"
  lua_call_sort :: "lua_value \<Rightarrow> lua_value \<Rightarrow> lua_value option \<Rightarrow> lua_value option \<times> lua_value"

section \<open>Errors pushed by the gateway\<close>

text \<open>
  \<open>luaPushError\<close> pushes a table whose \<open>err\<close> field is the message, prefixed
  with source and line of the caller when the interpreter can tell them.
\<close>

definition luaPushError :: "'db env \<Rightarrow> string \<Rightarrow> lua_stack \<Rightarrow> lua_stack" where
  "luaPushError env error lua =
     (case lua_getinfo env of
        Some dbg \<Rightarrow>
          LTable [(LString ''err'',
                   LString (c_string (fst dbg @ '': '' @ to_string (snd dbg) @ '': '' @ error)))] # lua
      | None \<Rightarrow> LTable [(LString ''err'', LString error)] # lua)"

text \<open>
  The result of a function registered with the interpreter: it returns with its
  results on the stack, or it raises an interpreter error with a value.
  \<open>Undefined\<close> marks a run whose behaviour the source leaves undefined.
\<close>

datatype call_result = Returned nat | Raised lua_value | Undefined

text \<open>
  \<open>luaRaiseError\<close> reads the \<open>err\<close> field of the value on top of the stack and
  raises it.  Indexing a string gives nil; indexing any other value that is not a
  table makes the interpreter raise its own type error.
\<close>

definition type_error :: lua_value where
  "type_error = LString ''attempt to index a non-table value''"

fun luaRaiseError :: "lua_stack \<Rightarrow> call_result" where
  "luaRaiseError (LTable t # lua) = Raised (lua_rawget t (LString ''err''))"
| "luaRaiseError (LString s # lua) = Raised LNil"
| "luaRaiseError (v # lua) = Raised type_error"
| "luaRaiseError [] = Undefined"

definition recursion_warning :: string where
  "recursion_warning =
     ''luaRedisGenericCommand() recursive call detected. '' @
     ''Are you doing funny stuff with Lua debug hooks?''"

definition write_after_random_error :: string where
  "write_after_random_error =
     ''Write commands not allowed after non deterministic commands.'' @
     ''Call redis.replicate_commands() at the start of your script '' @
     ''in order to switch to single commands replication mode.''"

section \<open>The sessions\<close>

definition new_session :: session where
  "new_session = \<lparr>sess_args = [],
                   sess_ctx = \<lparr>authed = False, dbId = 0, inMulti = False, ctx_flags = 0\<rparr>,
                   inLua = False\<rparr>"

text \<open>
  \<open>updateFakeClient\<close>: the non-networked session is created once; its
  authentication and database are taken over from the invoking session.
\<close>

definition updateFakeClient :: "session \<Rightarrow> session option \<Rightarrow> session" where
  "updateFakeClient s fake =
     (let f0 = (case fake of None \<Rightarrow> new_session\<lparr>inLua := True\<rparr> | Some f \<Rightarrow> f);
          f1 = (if \<not> authed (sess_ctx f0) \<and> authed (sess_ctx s)
                then f0\<lparr>sess_ctx := (sess_ctx f0)\<lparr>authed := True\<rparr>\<rparr> else f0);
          f2 = (if dbId (sess_ctx f1) \<noteq> dbId (sess_ctx s)
                then f1\<lparr>sess_ctx := (sess_ctx f1)\<lparr>dbId := dbId (sess_ctx s)\<rparr>\<rparr> else f1)
      in f2)"

section \<open>The command execution gateway\<close>

text \<open>
  The arguments of the call are the values of the frame, bottom first.  A number
  is printed with 17 significant digits, a string is taken as it is; the loop
  stops at the first value of another type.
\<close>

fun collect_args :: "'db env \<Rightarrow> lua_value list \<Rightarrow> string list" where
  "collect_args env [] = []"
| "collect_args env (LNumber num # vs) = format_17g env num # collect_args env vs"
| "collect_args env (LString s # vs) = s # collect_args env vs"
| "collect_args env (v # vs) = []"

definition toLower_char :: "char \<Rightarrow> char" where
  "toLower_char c = (if 65 \<le> (of_char c :: nat) \<and> (of_char c :: nat) \<le> 90
                     then char_of ((of_char c :: nat) + 32) else c)"

definition toLower :: "string \<Rightarrow> string" where
  "toLower s = map toLower_char s"

text \<open>
  \<open>lua_gettable\<close> without metatables: a table gives the field, a string gives
  nil (its metatable leads to the string library, which has no such field), any
  other value makes the interpreter raise its type error (\<open>None\<close>).
\<close>

fun lua_gettable :: "lua_value \<Rightarrow> lua_value \<Rightarrow> lua_value option" where
  "lua_gettable (LTable t) k = Some (lua_rawget t k)"
| "lua_gettable (LString s) k = Some LNil"
| "lua_gettable v k = None"

text \<open>
  \<open>luaSortArray\<close>, on the globals of the interpreter and the stack with the
  array on top.  The global \<open>table\<close> is looked up and indexed with \<open>sort\<close>;
  what is found is called on the array under \<open>lua_pcall\<close>; when that call
  raises, the error is dropped and the same value is called again with the
  global \<open>__redis__compare_helper\<close>, this time with the unprotected
  \<open>lua_call\<close>.  The result is the stack with the array as the calls left it
  (\<open>Inr\<close>), or the value of an error that nothing inside the function catches
  (\<open>Inl\<close>): the type error of indexing a \<open>table\<close> global that is no table,
  or what the second call raises.  \<open>None\<close>: there is no array on the stack.
\<close>

fun luaSortArray ::
  "'db env \<Rightarrow> (string \<rightharpoonup> lua_value) \<Rightarrow> lua_stack \<Rightarrow> (lua_value + lua_stack) option" where
  "luaSortArray env g [] = None"
| "luaSortArray env g (array # lua) =
     (case lua_gettable (case g ''table'' of None \<Rightarrow> LNil | Some v \<Rightarrow> v) (LString ''sort'') of
        None \<Rightarrow> Some (Inl type_error)
      | Some sortf \<Rightarrow>
          (let first = lua_call_sort env sortf array None
           in (case fst first of
                 None \<Rightarrow> Some (Inr (snd first # lua))
               | Some err \<Rightarrow>
                   (let helper = (case g ''__redis__compare_helper'' of
                                    None \<Rightarrow> LNil | Some v \<Rightarrow> v);
                        second = lua_call_sort env sortf (snd first) (Some helper)
                    in (case fst second of
                          None \<Rightarrow> Some (Inr (snd second # lua))
                        | Some v \<Rightarrow> Some (Inl v))))))"

text \<open>
  The part of \<open>luaRedisGenericCommand\<close> that runs under the scope guard, in
  three pieces.  Every path of the function body ends with \<open>return 1\<close>, and
  then the guard runs and reads the final value of \<open>raise_error\<close>:
  \<open>Return1\<close> carries that value.  An error raised inside this part is not
  caught there: the interpreter unwinds to its own handler and the rest of the
  function, the guard included, is not run (the guard itself raises with
  \<open>luaRaiseError\<close> after the body has returned, so errors are jumps of the
  interpreter, not exceptions that would run it).  \<open>Unwound\<close> carries the
  value raised.  The result is \<open>None\<close> where the behaviour is undefined.
\<close>

datatype guarded_exit = Return1 bool | Unwound lua_value

text \<open>
  \<open>push_decoded\<close>: a reply (or the text of a failed status) is decoded onto
  the stack.
\<close>

definition push_decoded ::
  "bool \<Rightarrow> 'db LuaState \<Rightarrow> string \<Rightarrow> (guarded_exit \<times> 'db LuaState) option" where
  "push_decoded raise_error ls reply =
     map_option (\<lambda>r. (Return1 raise_error, ls\<lparr>stack := fst r\<rparr>))
       (redisProtocolToLuaType (stack ls) reply)"

text \<open>
  \<open>push_reply\<close>: the reply of a command that ran.  A reply that is no error
  clears \<open>raise_error\<close>; the reply is decoded; the array of a command marked
  for sorting is sorted.
\<close>

definition push_reply ::
  "'db env \<Rightarrow> bool \<Rightarrow> cmd_flags \<Rightarrow> 'db LuaState \<Rightarrow> string \<Rightarrow>
     (guarded_exit \<times> 'db LuaState) option" where
  "push_reply env raise_error command ls reply =
     (let raise_error' = (if raise_error \<and> reply \<noteq> [] \<and> hd reply \<noteq> CHR ''-''
                         then False else raise_error)
      in if cmd_sort_for_script command \<and> \<not> lua_replicate_commands ls
            \<and> 1 < length reply \<and> hd reply = CHR ''*'' \<and> reply ! 1 \<noteq> CHR ''-''
         then Option.bind (redisProtocolToLuaType (stack ls) reply) (\<lambda>r.
              map_option
                (\<lambda>sorted. case sorted of
                     Inr l \<Rightarrow> (Return1 raise_error', ls\<lparr>stack := l\<rparr>)
                   | Inl v \<Rightarrow> (Unwound v, ls\<lparr>stack := fst r\<rparr>))
                (luaSortArray env (globals ls) (fst r)))
         else push_decoded raise_error' ls reply)"

text \<open>
  \<open>sync_access_flags\<close>: in cluster mode, when the invoking session carries no
  flags, the read-only flag of the non-networked session is taken from it.
\<close>

definition sync_access_flags :: "'db env \<Rightarrow> session \<Rightarrow> session \<Rightarrow> session" where
  "sync_access_flags env s fake =
     (if isClusterEnabled env \<and> isRunning env \<and> ctx_flags (sess_ctx s) = 0
      then fake\<lparr>sess_ctx := (sess_ctx fake)
             \<lparr>ctx_flags := (ctx_flags (sess_ctx fake) AND NOT (CLIENT_READONLY env))
                  OR (ctx_flags (sess_ctx s) AND CLIENT_READONLY env)\<rparr>\<rparr>
      else fake)"

text \<open>
  \<open>gateway_run\<close>: the command is run on the non-networked session and its
  reply (or the text of its failed status) is pushed.
\<close>

definition gateway_run ::
  "'db env \<Rightarrow> bool \<Rightarrow> string list \<Rightarrow> cmd_flags \<Rightarrow> session \<Rightarrow> session \<Rightarrow>
     'db LuaState \<Rightarrow> (guarded_exit \<times> 'db LuaState) option" where
  "gateway_run env raise_error args command s fake ls0 =
     (let res = runSessionCmd env (sync_access_flags env s fake) (store ls0);
          ls = ls0\<lparr>fakeSess := Some (fst (snd res)), store := snd (snd res),
                  trace := trace ls0 @ [EvRunSessionCmd args]\<rparr>
      in (case fst res of
            Inl status \<Rightarrow> push_decoded raise_error ls status
          | Inr reply \<Rightarrow> push_reply env raise_error command ls reply))"

text \<open>
  \<open>gateway_guarded\<close>: the precheck, the command flags, the two rejections and
  the two dirty flags, then the run.
\<close>

definition gateway_guarded ::
  "'db env \<Rightarrow> bool \<Rightarrow> string list \<Rightarrow> session \<Rightarrow> session \<Rightarrow> 'db LuaState \<Rightarrow>
     (guarded_exit \<times> 'db LuaState) option" where
  "gateway_guarded env raise_error args s fake0 ls0 =
     (let fake = fake0\<lparr>sess_args := args\<rparr>;
          ls = ls0\<lparr>fakeSess := Some fake\<rparr>
      in (case precheck env fake of
            Inl status \<Rightarrow> push_decoded raise_error ls status
          | Inr cmdName \<Rightarrow>
              (case commandMap env (toLower (hd args)) of
                 None \<Rightarrow> None
               | Some command \<Rightarrow>
                   (if cmd_noscript command
                    then Some (Return1 raise_error,
                           ls\<lparr>stack := luaPushError env
                                ''This Redis command is not allowed from scripts'' (stack ls)\<rparr>)
                    else if cmd_write command \<and> lua_random_dirty ls
                            \<and> \<not> lua_replicate_commands ls
                    then Some (Return1 raise_error,
                           ls\<lparr>stack := luaPushError env write_after_random_error (stack ls)\<rparr>)
                    else gateway_run env raise_error args command s fake
                           (ls\<lparr>lua_random_dirty :=
                                 (if cmd_random command then True else lua_random_dirty ls),
                               lua_write_dirty :=
                                 (if cmd_write command then True else lua_write_dirty ls)\<rparr>)))))"

text \<open>
  \<open>luaRedisGenericCommand\<close>, the body of \<open>redis.call\<close> (\<open>raise_error\<close> set) and
  \<open>redis.pcall\<close>.  The stack of the state is the frame of the call.  When the
  guarded part returns, the guard decrements the busy flag and raises if
  \<open>raise_error\<close> is still set; when the guarded part is left by an error,
  the call raises that error and the flag keeps its incremented value.
\<close>

definition luaRedisGenericCommand ::
  "'db env \<Rightarrow> bool \<Rightarrow> 'db LuaState \<Rightarrow> call_result \<times> 'db LuaState" where
  "luaRedisGenericCommand env raise_error ls0 =
     (case sess ls0 of
        None \<Rightarrow> (Undefined, ls0)
      | Some s \<Rightarrow>
          let argc = length (stack ls0);
              fake = updateFakeClient s (fakeSess ls0);
              fake = fake\<lparr>sess_ctx := (sess_ctx fake)\<lparr>inMulti := inMulti (sess_ctx s)\<rparr>\<rparr>;
              ls = ls0\<lparr>fakeSess := Some fake\<rparr>
          in if inuse ls \<noteq> 0
             then (Returned 1, ls\<lparr>stack := luaPushError env recursion_warning (stack ls)\<rparr>)
             else
               let ls = ls\<lparr>inuse := inuse ls + 1\<rparr> in
               if argc = 0
               then
                 let ls = ls\<lparr>stack := luaPushError env
                               ''Please specify at least one argument for redis.call()'' (stack ls),
                             inuse := inuse ls - 1\<rparr>
                 in ((if raise_error then luaRaiseError (stack ls) else Returned 1), ls)
               else
                 let args = collect_args env (rev (stack ls)) in
                 if length args \<noteq> argc
                 then
                   let ls = ls\<lparr>stack := luaPushError env
                                 ''Lua redis() command arguments must be strings or integers'' (stack ls),
                               inuse := inuse ls - 1\<rparr>
                   in ((if raise_error then luaRaiseError (stack ls) else Returned 1), ls)
                 else
                   (case gateway_guarded env raise_error args s fake ls of
                      None \<Rightarrow> (Undefined, ls0)
                    | Some (Unwound v, ls) \<Rightarrow> (Raised v, ls)
                    | Some (Return1 raise_error, ls) \<Rightarrow>
                        let ls = ls\<lparr>inuse := inuse ls - 1\<rparr>
                        in ((if raise_error then luaRaiseError (stack ls) else Returned 1), ls)))"

section \<open>The deterministic generator\<close>

text \<open>
  Modelled from the spec: \<open>redisSrand48\<close> and \<open>redisLrand48\<close> are declared
  outside the source file.  They are the seeding and the step of a deterministic
  linear-congruential generator; the constants are those of the 48-bit
  \<open>drand48\<close> family, and \<open>REDIS_LRAND48_MAX\<close> is the largest 32-bit signed
  integer.
\<close>

definition redisSrand48 :: "int \<Rightarrow> 48 word" where
  "redisSrand48 seedval = push_bit 16 (word_of_int seedval AND 0xFFFFFFFF) + 0x330E"

definition redisLrand48 :: "48 word \<Rightarrow> int \<times> 48 word" where
  "redisLrand48 x = (let x' = 0x5DEECE66D * x + 0xB in (uint (drop_bit 17 x'), x'))"

definition REDIS_LRAND48_MAX :: int where
  "REDIS_LRAND48_MAX = 2147483647"

definition in_int_range :: "int \<Rightarrow> bool" where
  "in_int_range i = (- 2147483648 \<le> i \<and> i \<le> 2147483647)"

text \<open>
  \<open>redis_math_random\<close>: one step of the generator, scaled into \<open>[0, 1)\<close> as a
  \<open>double\<close>, then shaped by the arguments of the frame (bottom first).  The
  interval bounds are \<open>int\<close>s; arithmetic on them that leaves the \<open>int\<close> range is
  undefined.
\<close>

definition redis_math_random :: "'db env \<Rightarrow> 'db LuaState \<Rightarrow> call_result \<times> 'db LuaState" where
  "redis_math_random env ls0 =
     (let step = redisLrand48 (rand ls0);
          ls = ls0\<lparr>rand := snd step\<rparr>;
          r = round_double (of_int (fst step mod REDIS_LRAND48_MAX) / of_int REDIS_LRAND48_MAX)
      in (case rev (stack ls) of
            [] \<Rightarrow> (Returned 1, ls\<lparr>stack := LNumber r # stack ls\<rparr>)
          | [a] \<Rightarrow>
              (case luaL_checkint env a of
                 None \<Rightarrow> (Raised (LString ''bad argument #1 (number expected)''), ls)
               | Some u \<Rightarrow>
                   if \<not> 1 \<le> u then (Raised (LString ''bad argument #1 (interval is empty)''), ls)
                   else (Returned 1,
                         ls\<lparr>stack := LNumber (round_double
                                 (of_int \<lfloor>round_double (r * of_int u)\<rfloor> + 1)) # stack ls\<rparr>))
          | [a, b] \<Rightarrow>
              (case luaL_checkint env a of
                 None \<Rightarrow> (Raised (LString ''bad argument #1 (number expected)''), ls)
               | Some l \<Rightarrow>
                   (case luaL_checkint env b of
                      None \<Rightarrow> (Raised (LString ''bad argument #2 (number expected)''), ls)
                    | Some u \<Rightarrow>
                        if \<not> l \<le> u then (Raised (LString ''bad argument #2 (interval is empty)''), ls)
                        else if \<not> in_int_range (u - l + 1) then (Undefined, ls)
                        else (Returned 1,
                              ls\<lparr>stack := LNumber (round_double
                                      (of_int \<lfloor>round_double (r * of_int (u - l + 1))\<rfloor> + of_int l))
                                    # stack ls\<rparr>)))
          | _ \<Rightarrow> (Raised (LString ''wrong number of arguments''), ls)))"

definition redis_math_randomseed :: "'db env \<Rightarrow> 'db LuaState \<Rightarrow> call_result \<times> 'db LuaState" where
  "redis_math_randomseed env ls =
     (case rev (stack ls) of
        [] \<Rightarrow> (Raised (LString ''bad argument #1 (number expected)''), ls)
      | a # _ \<Rightarrow>
          (case luaL_checkint env a of
             None \<Rightarrow> (Raised (LString ''bad argument #1 (number expected)''), ls)
           | Some seed \<Rightarrow> (Returned 0, ls\<lparr>rand := redisSrand48 seed\<rparr>)))"

section \<open>The script registry\<close>

text \<open>
  \<open>sha1hex\<close>: the 20 bytes of the digest, most significant first, each as two
  characters of \<open>cset\<close>.
\<close>

definition cset :: string where
  "cset = ''0123456789abcdef''"

definition hash_byte :: "160 word \<Rightarrow> nat \<Rightarrow> 8 word" where
  "hash_byte h j = ucast (drop_bit (8 * (19 - j)) h)"

definition sha1hex :: "'db env \<Rightarrow> string \<Rightarrow> string" where
  "sha1hex env script =
     concat (map (\<lambda>j. [cset ! unat (drop_bit 4 (hash_byte (SHA1 env script) j AND 0xF0)),
                       cset ! unat (hash_byte (SHA1 env script) j AND 0xF)]) [0..<20])"

text \<open>
  The errors \<open>evalGenericCommand\<close> and \<open>luaCreateFunction\<close> return: an
  \<open>ERR_LUA\<close> status with its message, the status of a failed \<open>stoll\<close> (for
  the text it was given) or of the lock manager.  \<open>AssertFailed\<close> is a failed
  \<open>serverAssert\<close>; \<open>UndefinedBehaviour\<close> marks a run the source leaves
  undefined (a read outside \<open>args\<close>, a number outside the 64-bit range).
\<close>

datatype error =
    ERR_LUA string
  | StollStatus string
  | LockStatus string
  | AssertFailed
  | UndefinedBehaviour

text \<open>
  \<open>luaCreateFunction\<close> compiles the chunk \<open>function f_<digest>() <body> end\<close> and
  runs it.

  Modelled from the spec: the interpreter is outside the source file.  Running the
  compiled chunk defines the function under its name in the global namespace and
  does not run the body.
\<close>

definition luaCreateFunction :: "'db env \<Rightarrow> string \<Rightarrow> 'db LuaState \<Rightarrow> (error + string) \<times> 'db LuaState" where
  "luaCreateFunction env body ls0 =
     (let funcname = ''f_'' @ sha1hex env body;
          funcdef = ''function '' @ funcname @ ''() '' @ body @ [LF] @ ''end'';
          ls = ls0\<lparr>trace := trace ls0 @ [EvLoadBuffer funcdef]\<rparr>
      in (case luaL_loadbuffer env funcdef of
            Some msg \<Rightarrow> (Inl (ERR_LUA (''Error compiling script (new function):'' @ msg)), ls)
          | None \<Rightarrow>
              (let ls1 = ls\<lparr>trace := trace ls @ [EvPcallChunk funcdef]\<rparr>
               in (case lua_pcall_chunk env funcdef of
                     Some msg \<Rightarrow> (Inl (ERR_LUA (''Error running script (new function):'' @ msg)), ls1)
                   | None \<Rightarrow>
                       (Inr funcname,
                        ls1\<lparr>globals := (globals ls1)(funcname \<mapsto> LFunction body)\<rparr>)))))"

section \<open>The script runner\<close>

text \<open>\<open>lua_getglobal\<close> pushes the global of that name, nil when there is none.\<close>

definition lua_getglobal :: "string \<Rightarrow> 'db LuaState \<Rightarrow> 'db LuaState" where
  "lua_getglobal name ls =
     ls\<lparr>stack := (case globals ls name of None \<Rightarrow> LNil | Some v \<Rightarrow> v) # stack ls,
        trace := trace ls @ [EvGetGlobal name]\<rparr>"

text \<open>A conversion to \<open>int\<close> keeps the low 32 bits.\<close>

definition to_int :: "int \<Rightarrow> int" where
  "to_int i = sint (word_of_int i :: 32 word)"

text \<open>
  \<open>luaSetGlobalArray\<close>: a new table with \<open>args[start], ..., args[start+num-1]\<close>
  at the indices \<open>1, ..., num\<close>, stored in a global.  A read outside \<open>args\<close> is
  undefined.
\<close>

fun array_of :: "nat \<Rightarrow> string list \<Rightarrow> lua_table" where
  "array_of j [] = []"
| "array_of j (a # as) = (LNumber (of_nat (Suc j)), LString a) # array_of (Suc j) as"

definition luaSetGlobalArray ::
  "string \<Rightarrow> string list \<Rightarrow> nat \<Rightarrow> int \<Rightarrow> 'db LuaState \<Rightarrow> 'db LuaState option" where
  "luaSetGlobalArray var args start num ls =
     (if 0 < num \<and> int (length args) < int start + num then None
      else let t = LTable (array_of 0 (take (nat num) (drop start args)))
           in Some (ls\<lparr>globals := (globals ls)(var \<mapsto> t),
                       trace := trace ls @ [EvSetGlobal var t]\<rparr>))"

text \<open>
  The name under which the function is looked up.  For \<open>EVAL\<close> it is \<open>f_\<close>
  followed by the digest of the body.  With \<open>evalsha\<close> set the source writes
  nothing behind \<open>f_\<close>: the name is completed by whatever the buffer holds, the
  parameter \<open>residue\<close> (the bytes up to the first NUL).
\<close>

definition function_name :: "'db env \<Rightarrow> bool \<Rightarrow> string \<Rightarrow> string \<Rightarrow> string" where
  "function_name env evalsha body residue =
     (if \<not> evalsha then ''f_'' @ sha1hex env body else ''f_'' @ c_string residue)"

text \<open>
  The lookup of the function and, when it is missing, its creation.  On success
  the error handler and the function are the two values on top of the stack.
\<close>

definition resolve_function ::
  "'db env \<Rightarrow> bool \<Rightarrow> string \<Rightarrow> string \<Rightarrow> 'db LuaState \<Rightarrow> (error + unit) \<times> 'db LuaState" where
  "resolve_function env evalsha body funcname ls0 =
     (let ls1 = lua_getglobal ''__redis__err__handler'' ls0;
          ls2 = lua_getglobal funcname ls1
      in if hd (stack ls2) = LNil
         then
           (let ls3 = ls2\<lparr>stack := tl (stack ls2)\<rparr>
            in if evalsha
               then (Inl (ERR_LUA (''-NOSCRIPT No matching script. Please use EVAL.'' @ CRLF)),
                     ls3\<lparr>stack := tl (stack ls3)\<rparr>)
               else
                 (case luaCreateFunction env body ls3 of
                    (Inl e, ls4) \<Rightarrow>
                      (Inl (ERR_LUA ''luaCreateFunction failed''), ls4\<lparr>stack := tl (stack ls4)\<rparr>)
                  | (Inr name, ls4) \<Rightarrow>
                      (let ls5 = lua_getglobal funcname ls4
                       in if hd (stack ls5) = LNil then (Inl AssertFailed, ls5)
                          else (Inr (), ls5))))
         else (Inr (), ls2))"

text \<open>
  The run after the function is resolved: the two globals, the non-networked
  session, the locks on the declared keys, the hook, the call, the reply.
\<close>

definition run_resolved ::
  "'db env \<Rightarrow> session \<Rightarrow> string list \<Rightarrow> int \<Rightarrow> string \<Rightarrow> 'db LuaState \<Rightarrow>
     (error + string) \<times> 'db LuaState" where
  "run_resolved env s args numkeys funcname ls0 =
     (case Option.bind (luaSetGlobalArray ''KEYS'' args 3 (to_int numkeys) ls0)
             (luaSetGlobalArray ''ARGV'' args (3 + nat numkeys)
                (to_int (int (length args) - 3 - numkeys))) of
        None \<Rightarrow> (Inl UndefinedBehaviour, ls0)
      | Some ls1 \<Rightarrow>
          (let fake = updateFakeClient s (fakeSess ls1);
               ls2 = ls1\<lparr>fakeSess := Some fake\<rparr>;
               keyidx = [3 ..< 3 + nat numkeys];
               ls3 = ls2\<lparr>trace := trace ls2 @ [EvLockKeys keyidx]\<rparr>
           in (case getAllKeysLocked env fake args keyidx of
                 Some status \<Rightarrow>
                   (Inl (LockStatus status), ls3\<lparr>stack := drop 2 (stack ls3), sess := None\<rparr>)
               | None \<Rightarrow>
                   (let ls4 = ls3\<lparr>lua_time_start := msSinceEpoch env\<rparr>;
                        delhook = (0 < luaTimeLimit env);
                        ls5 = (if delhook
                               then ls4\<lparr>hook := True, trace := trace ls4 @ [EvSetHook]\<rparr>
                               else ls4);
                        ls6 = ls5\<lparr>stack := tl (stack ls5),
                                  trace := trace ls5 @ [EvPcallFunction funcname]\<rparr>;
                        call = lua_pcall_function env (hd (stack ls5)) ls6;
                        ls7 = snd call;
                        ls8 = (if delhook then ls7\<lparr>hook := False\<rparr> else ls7);
                        ls9 = (if lua_timedout ls8 then ls8\<lparr>lua_timedout := False\<rparr> else ls8)
                    in (case fst call of
                          Inl msg \<Rightarrow>
                            (Inl (ERR_LUA (''Error running script (call to '' @ funcname @ ''):'' @ msg)),
                             ls9\<lparr>stack := tl (stack ls9), sess := None\<rparr>)
                        | Inr v \<Rightarrow>
                            (case luaReplyToRedisReply (v # stack ls9) of
                               None \<Rightarrow> (Inl UndefinedBehaviour, ls9\<lparr>sess := None\<rparr>)
                             | Some r \<Rightarrow>
                                 (Inr (fst r), ls9\<lparr>stack := tl (snd r), sess := None\<rparr>)))))))"

text \<open>
  \<open>evalGenericCommand\<close>.  The generator is seeded and the flags of the run are
  reset first; then the key count is read and checked, the function resolved and
  run.
\<close>

definition evalGenericCommand ::
  "'db env \<Rightarrow> session \<Rightarrow> bool \<Rightarrow> string \<Rightarrow> 'db LuaState \<Rightarrow> (error + string) \<times> 'db LuaState" where
  "evalGenericCommand env s evalsha residue ls0 =
     (let args = sess_args s;
          ls1 = ls0\<lparr>sess := Some s,
                   rand := redisSrand48 0,
                   trace := trace ls0 @ [EvSrand48 0],
                   lua_random_dirty := False,
                   lua_write_dirty := False,
                   lua_replicate_commands := False\<rparr>
      in if length args < 3 then (Inl UndefinedBehaviour, ls1)
         else
           (case stoll (args ! 2) of
              None \<Rightarrow> (Inl (StollStatus (args ! 2)), ls1)
            | Some numkeys \<Rightarrow>
                if to_int (int (length args) - 3) < numkeys
                then (Inl (ERR_LUA ''Number of keys can't be greater than number of args''), ls1)
                else if numkeys < 0
                then (Inl (ERR_LUA ''Number of keys can't be negative''), ls1)
                else
                  (let funcname = function_name env evalsha (args ! 1) residue
                   in (case resolve_function env evalsha (args ! 1) funcname ls1 of
                         (Inl e, ls2) \<Rightarrow> (Inl e, ls2)
                       | (Inr u, ls2) \<Rightarrow> run_resolved env s args numkeys funcname ls2))))"

definition evalCommand :: "'db env \<Rightarrow> session \<Rightarrow> string \<Rightarrow> 'db LuaState \<Rightarrow> (error + string) \<times> 'db LuaState" where
  "evalCommand env s residue ls = evalGenericCommand env s False residue ls"

section \<open>Notions used in the statements\<close>

text \<open>
  The message of an error table, the session and the arguments the gateway
  prepares for a call.
\<close>

definition error_message :: "'db env \<Rightarrow> string \<Rightarrow> string" where
  "error_message env error =
     (case lua_getinfo env of
        Some dbg \<Rightarrow> c_string (fst dbg @ '': '' @ to_string (snd dbg) @ '': '' @ error)
      | None \<Rightarrow> error)"

definition call_session :: "session \<Rightarrow> 'db LuaState \<Rightarrow> session" where
  "call_session s ls =
     (let fake = updateFakeClient s (fakeSess ls)
      in fake\<lparr>sess_ctx := (sess_ctx fake)\<lparr>inMulti := inMulti (sess_ctx s)\<rparr>\<rparr>)"

definition call_args :: "'db env \<Rightarrow> 'db LuaState \<Rightarrow> string list" where
  "call_args env ls = collect_args env (rev (stack ls))"

text \<open>
  The state after the first statements of \<open>evalGenericCommand\<close>, the value a
  lookup of a global gives, and the events of resolving a function.
\<close>

definition reset_run :: "session \<Rightarrow> 'db LuaState \<Rightarrow> 'db LuaState" where
  "reset_run s ls = ls\<lparr>sess := Some s, rand := redisSrand48 0,
                       trace := trace ls @ [EvSrand48 0], lua_random_dirty := False,
                       lua_write_dirty := False, lua_replicate_commands := False\<rparr>"

definition global_value :: "'db LuaState \<Rightarrow> string \<Rightarrow> lua_value" where
  "global_value ls name = (case globals ls name of None \<Rightarrow> LNil | Some v \<Rightarrow> v)"

definition is_resolve_event :: "event \<Rightarrow> bool" where
  "is_resolve_event e =
     (case e of EvGetGlobal n \<Rightarrow> True | EvLoadBuffer c \<Rightarrow> True | EvPcallChunk c \<Rightarrow> True
      | _ \<Rightarrow> False)"

section \<open>An example environment\<close>

text \<open>
  A small environment for the examples: three commands, an executor that answers
  \<open>+OK\<close>, a lock manager that grants every lock, an interpreter in which the
  call of a function on an array returns and the call of any other value raises.
\<close>

definition test_env :: "unit env" where
  "test_env =
     \<lparr>precheck = (\<lambda>f. Inr (hd (sess_args f))),
      commandMap = [''get'' \<mapsto> \<lparr>cmd_noscript = False, cmd_write = False,
                                 cmd_random = False, cmd_sort_for_script = False\<rparr>,
                    ''set'' \<mapsto> \<lparr>cmd_noscript = False, cmd_write = True,
                                 cmd_random = False, cmd_sort_for_script = False\<rparr>,
                    ''spop'' \<mapsto> \<lparr>cmd_noscript = False, cmd_write = True,
                                  cmd_random = True, cmd_sort_for_script = False\<rparr>],
      runSessionCmd = (\<lambda>f db. (Inr (''+OK'' @ CRLF), f, db)),
      getAllKeysLocked = (\<lambda>f args keyidx. None),
      isClusterEnabled = False,
      isRunning = True,
      CLIENT_READONLY = 1,
      luaTimeLimit = 5000,
      msSinceEpoch = 0,
      SHA1 = (\<lambda>script. 0),
      luaL_loadbuffer = (\<lambda>chunk. None),
      lua_pcall_chunk = (\<lambda>chunk. None),
      lua_pcall_function = (\<lambda>f ls. (Inr (LNumber 1), ls)),
      lua_getinfo = None,
      format_17g = (\<lambda>x. to_string \<lfloor>x\<rfloor>),
      luaL_checkint = (\<lambda>v. case v of LNumber x \<Rightarrow> Some \<lfloor>x\<rfloor> | _ \<Rightarrow> None),
      lua_call_sort = (\<lambda>f array cmp. case f of
                           LFunction name \<Rightarrow> (None, array)
                         | _ \<Rightarrow> (Some (LString ''attempt to call a non-function value''), array))\<rparr>"

definition test_session :: "string list \<Rightarrow> session" where
  "test_session args = new_session\<lparr>sess_args := args\<rparr>"

definition test_state :: "unit LuaState" where
  "test_state =
     \<lparr>stack = [], globals = Map.empty, sess = None, fakeSess = None, inuse = 0,
      lua_random_dirty = False, lua_write_dirty = False, lua_replicate_commands = False,
      lua_timedout = False, lua_time_start = 0, rand = 0, hook = False, store = (),
      trace = []\<rparr>"

definition rejected_write_state :: "unit LuaState" where
  "rejected_write_state =
     test_state\<lparr>stack := [LString ''v'', LString ''k'', LString ''set''],
                sess := Some (test_session [''eval'', ''...'', ''0'']),
                lua_random_dirty := True\<rparr>"


text \<open>
  A command whose reply is sorted for scripts: \<open>smembers\<close> answering with the
  two members \<open>b\<close> and \<open>a\<close>.  In \<open>members_state\<close> a script calls it with
  the \<open>table\<close> library and the comparison helper in place; in
  \<open>no_table_state\<close> the script has assigned \<open>nil\<close> to the global \<open>table\<close>
  before the call.
\<close>

definition members_reply :: string where
  "members_reply = wire (Array [Bulk ''b'', Bulk ''a''])"

definition sort_env :: "unit env" where
  "sort_env =
     test_env\<lparr>commandMap := [''smembers'' \<mapsto> \<lparr>cmd_noscript = False, cmd_write = False,
                                                cmd_random = False, cmd_sort_for_script = True\<rparr>],
              runSessionCmd := (\<lambda>f db. (Inr members_reply, f, db))\<rparr>"

definition library_globals :: "string \<rightharpoonup> lua_value" where
  "library_globals =
     [''table'' \<mapsto> LTable [(LString ''sort'', LFunction ''sort'')],
      ''__redis__compare_helper'' \<mapsto> LFunction ''__redis__compare_helper'']"

definition members_state :: "unit LuaState" where
  "members_state =
     test_state\<lparr>stack := [LString ''s'', LString ''smembers''],
                sess := Some (test_session [''eval'', ''...'', ''0'']),
                globals := library_globals\<rparr>"

definition no_table_state :: "unit LuaState" where
  "no_table_state = members_state\<lparr>globals := library_globals(''table'' := None)\<rparr>"

text \<open>The example run: \<open>EVAL "return 1" 1 k a\<close> on a fresh engine.\<close>

definition example_run :: "(error + string) \<times> unit LuaState" where
  "example_run =
     evalGenericCommand test_env (test_session [''eval'', ''return 1'', ''1'', ''k'', ''a''])
       False [] test_state"

section \<open>Scripts that only draw random numbers\<close>

text \<open>
  The interpreter is outside the source file, so the run of a compiled function
  is a parameter of the model.  A script that makes no external call and only
  draws from the generator is described by the argument frames of its calls of
  \<open>math.random\<close>, in order: \<open>rng_script\<close> runs \<open>redis_math_random\<close> on each
  frame and returns the table of the numbers drawn.  A call that raises ends the
  script with the message raised; a call whose interval arithmetic is undefined
  ends it with an empty message.
\<close>

definition error_text :: "lua_value \<Rightarrow> string" where
  "error_text v = (case v of LString m \<Rightarrow> m | _ \<Rightarrow> [])"

fun rng_script ::
  "'db env \<Rightarrow> lua_value list list \<Rightarrow> lua_value list \<Rightarrow> 'db LuaState \<Rightarrow>
     (string + lua_value) \<times> 'db LuaState" where
  "rng_script env [] acc ls = (Inr (LTable (array_entries 0 (rev acc))), ls)"
| "rng_script env (argv # calls) acc ls =
     (let r = redis_math_random env (ls\<lparr>stack := rev argv\<rparr>);
          ls' = (snd r)\<lparr>stack := stack ls\<rparr>
      in (case fst r of
            Returned n \<Rightarrow> rng_script env calls (hd (stack (snd r)) # acc) ls'
          | Raised v \<Rightarrow> (Inl (error_text v), ls')
          | Undefined \<Rightarrow> (Inl [], ls')))"

text \<open>
  The reply of a run from the result of its script, the array a binding of
  \<open>KEYS\<close> or \<open>ARGV\<close> stores, the outcome of compiling a function that was not
  found, and what a run of a resolved function gives and leaves behind.
\<close>

definition reply_of_call :: "string \<Rightarrow> string + lua_value \<Rightarrow> error + string" where
  "reply_of_call fn res =
     (case res of
        Inl msg \<Rightarrow> Inl (ERR_LUA (''Error running script (call to '' @ fn @ ''):'' @ msg))
      | Inr v \<Rightarrow> (case luaValueToRedisReply v of
                    None \<Rightarrow> Inl UndefinedBehaviour
                  | Some r \<Rightarrow> Inr r))"

definition array_out_of_range :: "string list \<Rightarrow> nat \<Rightarrow> int \<Rightarrow> bool" where
  "array_out_of_range args start num = (0 < num \<and> int (length args) < int start + num)"

definition array_value :: "string list \<Rightarrow> nat \<Rightarrow> int \<Rightarrow> lua_value" where
  "array_value args start num = LTable (array_of 0 (take (nat num) (drop start args)))"

definition create_outcome :: "'db env \<Rightarrow> string \<Rightarrow> string \<Rightarrow> error + unit" where
  "create_outcome env body fn =
     (let funcdef = ''function '' @ (''f_'' @ sha1hex env body) @ ''() '' @ body @ [LF] @ ''end''
      in case luaL_loadbuffer env funcdef of
           Some msg \<Rightarrow> Inl (ERR_LUA ''luaCreateFunction failed'')
         | None \<Rightarrow>
             (case lua_pcall_chunk env funcdef of
                Some msg \<Rightarrow> Inl (ERR_LUA ''luaCreateFunction failed'')
              | None \<Rightarrow> if fn = ''f_'' @ sha1hex env body then Inr () else Inl AssertFailed))"

definition same_run :: "'db env \<Rightarrow> session \<Rightarrow> string list \<Rightarrow> int \<Rightarrow> string \<Rightarrow>
    session \<Rightarrow> (error + string) \<Rightarrow> 'db LuaState \<Rightarrow> bool" where
  "same_run env s args nk fn fake out l =
     (fst (run_resolved env s args nk fn l) = out
      \<and> global_value (snd (run_resolved env s args nk fn l)) fn = global_value l fn
      \<and> updateFakeClient s (fakeSess (snd (run_resolved env s args nk fn l))) = fake)"

text \<open>
  An example: a script that calls \<open>math.random()\<close> and then \<open>math.random(10)\<close>.
\<close>

definition rng_env :: "unit env" where
  "rng_env = test_env\<lparr>lua_pcall_function := (\<lambda>f. rng_script test_env [[], [LNumber 10]] [])\<rparr>"

definition rng_session :: session where
  "rng_session = test_session [''eval'', ''return {math.random(), math.random(10)}'', ''0'']"

section \<open>Decimal integers: printing and reading\<close>

lemma less_10_cases:
  "d < 10 \<Longrightarrow> d = 0 \<or> d = 1 \<or> d = 2 \<or> d = 3 \<or> d = 4 \<or> d = 5 \<or> d = 6
     \<or> d = 7 \<or> d = 8 \<or> d = (9::nat)"
  by arith

lemma is_digit_digit_char: "d < 10 \<Longrightarrow> is_digit (digit_char d)"
  by (drule less_10_cases) (auto simp: is_digit_def digit_char_def)

lemma digit_val_digit_char: "d < 10 \<Longrightarrow> digit_val (digit_char d) = d"
  by (drule less_10_cases) (auto simp: digit_val_def digit_char_def)

lemma digits_nonempty: "digits n \<noteq> []"
  by (subst digits.simps) simp

lemma digits_all_digit: "list_all is_digit (digits n)"
proof (induction n rule: digits.induct)
  case (1 n)
  show ?case
  proof (cases "n < 10")
    case True
    then show ?thesis by (subst digits.simps) (simp add: is_digit_digit_char)
  next
    case False
    then show ?thesis
      using "1.IH" by (subst digits.simps) (simp add: is_digit_digit_char)
  qed
qed

lemma digits_value: "foldl (\<lambda>a c. 10 * a + digit_val c) 0 (digits n) = n"
proof (induction n rule: digits.induct)
  case (1 n)
  show ?case
  proof (cases "n < 10")
    case True
    then show ?thesis by (subst digits.simps) (simp add: digit_val_digit_char)
  next
    case False
    then show ?thesis
      using "1.IH" by (subst digits.simps) (simp add: digit_val_digit_char)
  qed
qed

lemma parse_nat_digits: "parse_nat (digits n) = Some n"
  by (simp add: parse_nat_def digits_nonempty digits_all_digit digits_value)

lemma is_digit_not_special:
  "is_digit c \<Longrightarrow> c \<noteq> CHR ''-'' \<and> c \<noteq> CR \<and> c \<noteq> NUL \<and> c \<noteq> LF"
  by (auto simp: is_digit_def CR_def NUL_def LF_def)

lemma digits_no_special:
  "c \<in> set (digits n) \<Longrightarrow> c \<noteq> CHR ''-'' \<and> c \<noteq> CR \<and> c \<noteq> NUL \<and> c \<noteq> LF"
  using digits_all_digit [of n] is_digit_not_special by (auto simp: list_all_iff)

lemma hd_digits: "hd (digits n) \<noteq> CHR ''-''"
  using digits_no_special [of "hd (digits n)" n] digits_nonempty [of n] by auto

lemma stoll_to_string:
  assumes "- (2 ^ 63) \<le> i" "i < 2 ^ 63"
  shows "stoll (to_string i) = Some i"
proof (cases "i < 0")
  case True
  then have "nat (- i) \<le> 2 ^ 63" using assms by (simp add: nat_le_iff)
  with True show ?thesis
    by (simp add: stoll_def to_string_def parse_nat_digits)
next
  case False
  then have "nat i < 2 ^ 63" using assms by (simp add: nat_less_iff)
  with False show ?thesis
    by (simp add: stoll_def to_string_def parse_nat_digits digits_nonempty hd_digits)
qed

lemma to_string_no_CR: "CR \<notin> set (to_string i)" "NUL \<notin> set (to_string i)"
  using digits_no_special by (auto simp: to_string_def CR_def NUL_def)

lemma strchr_line:
  "CR \<notin> set l \<Longrightarrow> NUL \<notin> set l \<Longrightarrow> strchr (l @ CR # rest) CR = Some (CR # rest)"
  by (induction l) auto

lemma line_before_line: "line_before (t # l @ CR # rest) (CR # rest) = l"
  by (simp add: line_before_def)

section \<open>Decoding one reply\<close>

lemma redisProtocolToLuaType_rec_eq:
  "redisProtocolToLuaType_rec = (\<lambda>s. redisProtocolToLuaType (fst s) (snd s))"
  by (rule ext) (simp add: redisProtocolToLuaType_def)

lemma redisProtocolToLuaType_Nil: "redisProtocolToLuaType lua [] = Some (lua, [])"
  by (subst redisProtocolToLuaType_def, subst redisProtocolToLuaType_rec.simps) simp

lemma redisProtocolToLuaType_Cons:
  "redisProtocolToLuaType lua (c # cs) =
     (if c = CHR '':'' then redisProtocolToLuaType_Int lua (c # cs)
      else if c = CHR ''$'' then redisProtocolToLuaType_Bulk lua (c # cs)
      else if c = CHR ''+'' then redisProtocolToLuaType_Status lua (c # cs)
      else if c = CHR ''-'' then redisProtocolToLuaType_Error lua (c # cs)
      else if c = CHR ''*''
        then redisProtocolToLuaType_MultiBulk (\<lambda>s. redisProtocolToLuaType (fst s) (snd s)) lua (c # cs)
      else Some (lua, c # cs))"
  by (subst redisProtocolToLuaType_def, subst redisProtocolToLuaType_rec.simps)
     (simp add: Let_def redisProtocolToLuaType_rec_eq)

lemma header_line:
  assumes "CR \<notin> set l" "NUL \<notin> set l"
  shows "strchr (tl (t # l @ CRLF @ rest)) CR = Some (CR # LF # rest)"
    and "line_before (t # l @ CRLF @ rest) (CR # LF # rest) = l"
  using assms by (simp_all add: CRLF_def strchr_line line_before_def)

lemma decode_Integer:
  assumes "- (2 ^ 63) \<le> i" "i < 2 ^ 63"
  shows "redisProtocolToLuaType lua (fmtLongLong i @ rest) = Some (LNumber (to_lua_Number i) # lua, rest)"
  using assms header_line [OF to_string_no_CR, of "CHR '':''" i rest]
  by (simp add: fmtLongLong_def redisProtocolToLuaType_Cons redisProtocolToLuaType_Int_def
      string2ll_def stoll_to_string)

lemma decode_Bulk:
  assumes "length s < 2 ^ 63"
  shows "redisProtocolToLuaType lua (fmtBulk s @ rest) = Some (LString s # lua, rest)"
proof -
  have "stoll (to_string (int (length s))) = Some (int (length s))"
    using assms by (intro stoll_to_string) (simp_all add: nat_less_iff)
  then show ?thesis
    using header_line [OF to_string_no_CR, of "CHR ''$''" "int (length s)" "s @ CRLF @ rest"]
    by (simp add: fmtBulk_def redisProtocolToLuaType_Cons redisProtocolToLuaType_Bulk_def
        string2ll_def CRLF_def)
qed

lemma stoll_minus_one: "stoll ''-1'' = Some (- 1)"
  by (simp add: stoll_def parse_nat_def is_digit_def digit_val_def)

lemma header_minus_one:
  "strchr (tl (t # ''-1'' @ CRLF @ rest)) CR = Some (CR # LF # rest)"
  "line_before (t # ''-1'' @ CRLF @ rest) (CR # LF # rest) = ''-1''"
  by (simp_all add: CRLF_def CR_def NUL_def line_before_def)

lemma decode_Nil:
  "redisProtocolToLuaType lua (fmtNull @ rest) = Some (LBoolean False # lua, rest)"
  using header_minus_one [of "CHR ''$''" rest]
  by (simp add: fmtNull_def redisProtocolToLuaType_Cons redisProtocolToLuaType_Bulk_def
      string2ll_def stoll_minus_one)

lemma decode_NilArray:
  "redisProtocolToLuaType lua (''*-1'' @ CRLF @ rest) = Some (LBoolean False # lua, rest)"
  using header_minus_one [of "CHR ''*''" rest]
  by (simp add: redisProtocolToLuaType_Cons redisProtocolToLuaType_MultiBulk_def
      string2ll_def stoll_minus_one)

lemma decode_Status:
  assumes "CR \<notin> set l" "NUL \<notin> set l"
  shows "redisProtocolToLuaType lua (CHR ''+'' # l @ CRLF @ rest) =
           Some (LTable [(LString ''ok'', LString l)] # lua, rest)"
  using header_line [OF assms, of "CHR ''+''" rest]
  by (simp add: redisProtocolToLuaType_Cons redisProtocolToLuaType_Status_def lua_rawset_def)

lemma decode_Error:
  assumes "CR \<notin> set l" "NUL \<notin> set l"
  shows "redisProtocolToLuaType lua (CHR ''-'' # l @ CRLF @ rest) =
           Some (LTable [(LString ''err'', LString l)] # lua, rest)"
  using header_line [OF assms, of "CHR ''-''" rest]
  by (simp add: redisProtocolToLuaType_Cons redisProtocolToLuaType_Error_def lua_rawset_def)

section \<open>Integers as numbers of the interpreter\<close>

lemma round_half_even_of_int: "round_half_even (of_int m) = m"
  by (simp add: round_half_even_def)

lemma round_double_exact:
  assumes "x \<noteq> 0" "\<bar>x\<bar> / 2 powi (flog2 \<bar>x\<bar> - 52) = of_int m"
  shows "round_double x = x"
proof -
  define u :: rat where "u = 2 powi (flog2 \<bar>x\<bar> - 52)"
  have u: "u \<noteq> 0" by (simp add: u_def)
  have "round_double x = sgn x * of_int m * u"
    using assms by (simp add: round_double_def Let_def u_def round_half_even_of_int)
  also have "of_int m = \<bar>x\<bar> / u" using assms(2) by (simp add: u_def)
  also have "sgn x * (\<bar>x\<bar> / u) * u = sgn x * \<bar>x\<bar>" using u by simp
  also have "\<dots> = x" by (simp add: sgn_mult_abs)
  finally show ?thesis .
qed

lemma flog2_of_int:
  assumes "0 < n"
  shows "flog2 (of_int n) = bitlen n - 1"
proof -
  have b: "1 \<le> bitlen n" using assms by (simp add: bitlen_alt_def)
  have "(2::int) ^ nat (bitlen n - 1) \<le> n" using bitlen_bounds [OF assms] by simp
  then have "(of_int ((2::int) ^ nat (bitlen n - 1)) :: rat) \<le> of_int n"
    by (simp only: of_int_le_iff)
  then have "\<not> (of_int n :: rat) < 2 powi (bitlen n - 1)"
    using b by (simp add: power_int_def)
  moreover have "quotient_of (of_int n) = (n, 1)"
    using quotient_of_int [of n] by (simp add: Rat.of_int_def)
  moreover have "bitlen 1 = 1" by (simp add: bitlen_alt_def)
  ultimately show ?thesis
    by (simp add: flog2_def Let_def)
qed

lemma bitlen_le_54:
  assumes "0 < n" "n \<le> 2 ^ 53"
  shows "bitlen n \<le> 54"
proof -
  have "nat n < 2 ^ 54" using assms by (simp add: nat_less_iff)
  then have "floorlog 2 (nat n) \<le> 54" by (simp add: floorlog_le_iff)
  then show ?thesis by (simp add: bitlen_def)
qed

lemma round_double_of_nat_small:
  assumes "0 < n" "n \<le> 2 ^ 53"
  shows "\<exists>m. (of_int n :: rat) / 2 powi (flog2 (of_int n) - 52) = of_int m"
proof -
  let ?e = "bitlen n - 1"
  have e: "flog2 (of_int n) = ?e" by (rule flog2_of_int [OF assms(1)])
  have e53: "?e \<le> 53" using bitlen_le_54 [OF assms] by simp
  show ?thesis
  proof (cases "?e \<le> 52")
    case True
    then have "(2::rat) powi (?e - 52) = inverse (2 ^ nat (52 - ?e))"
      by (cases "?e = 52") (simp_all add: power_int_def power_one_over inverse_eq_divide)
    then have "(of_int n :: rat) / 2 powi (?e - 52) = of_int (n * 2 ^ nat (52 - ?e))"
      by (simp add: field_simps)
    then show ?thesis unfolding e by blast
  next
    case False
    with e53 have e_eq: "?e = 53" by simp
    then have "(2::int) ^ 53 \<le> n" using bitlen_bounds [OF assms(1)] by simp
    with assms(2) have n: "n = 2 ^ 53" by simp
    have "(of_int n :: rat) / 2 powi (?e - 52) = of_int (2 ^ 52)"
      unfolding e_eq by (simp add: n)
    then show ?thesis unfolding e by blast
  qed
qed

lemma to_lua_Number_exact:
  assumes "- (2 ^ 53) \<le> i" "i \<le> 2 ^ 53"
  shows "to_lua_Number i = of_int i"
proof (cases "i = 0")
  case True
  then show ?thesis by (simp add: to_lua_Number_def round_double_def)
next
  case False
  then have pos: "0 < \<bar>i\<bar>" by simp
  have le: "\<bar>i\<bar> \<le> 2 ^ 53" using assms by (simp add: abs_le_iff)
  obtain m where "(of_int \<bar>i\<bar> :: rat) / 2 powi (flog2 (of_int \<bar>i\<bar>) - 52) = of_int m"
    using round_double_of_nat_small [OF pos le] by blast
  then have "\<bar>of_int i :: rat\<bar> / 2 powi (flog2 \<bar>of_int i\<bar> - 52) = of_int m"
    by simp
  moreover have "(of_int i :: rat) \<noteq> 0" using False by simp
  ultimately show ?thesis
    unfolding to_lua_Number_def by (rule round_double_exact [rotated])
qed

lemma to_int64_of_int:
  assumes "- (2 ^ 63) \<le> i" "i < 2 ^ 63"
  shows "to_int64 (of_int i) = Some i"
  using assms by (simp add: to_int64_def)

section \<open>Decoding arrays\<close>

lemma decoded_value_not_nil: "decoded_value r \<noteq> LNil"
  by (cases r) simp_all

lemma array_entries_keys:
  "k \<in> fst ` set (array_entries j vs) \<Longrightarrow> \<exists>n>j. k = LNumber (of_nat n)"
proof (induction vs arbitrary: j)
  case Nil
  then show ?case by simp
next
  case (Cons v vs)
  from Cons.prems
  have "k = LNumber (of_nat (Suc j)) \<or> k \<in> fst ` set (array_entries (Suc j) vs)"
    by auto
  then show ?case
  proof
    assume "k = LNumber (of_nat (Suc j))"
    then show ?thesis by (intro exI [of _ "Suc j"]) simp
  next
    assume "k \<in> fst ` set (array_entries (Suc j) vs)"
    then obtain n where "Suc j < n" "k = LNumber (of_nat n)"
      using Cons.IH by blast
    then show ?thesis by (intro exI [of _ n]) simp
  qed
qed

lemma update_fresh: "k \<notin> fst ` set t \<Longrightarrow> AList.update k v t = t @ [(k, v)]"
  by (induction t) auto

lemma multibulk_loop_elements:
  assumes dec: "\<And>e lua rest. e \<in> set es \<Longrightarrow>
                  redisProtocolToLuaType lua (wire e @ rest) = Some (decoded_value e # lua, rest)"
    and fresh: "\<And>n. j < n \<Longrightarrow> LNumber (of_nat n) \<notin> fst ` set t"
    and bound: "j + length es < 2 ^ 31"
  shows "multibulk_loop (\<lambda>s. redisProtocolToLuaType (fst s) (snd s)) (length es) j
           (LTable t # lua, concat (map wire es) @ rest)
         = Some (LTable (t @ array_entries j (map decoded_value es)) # lua, rest)"
  using assms
proof (induction es arbitrary: j t)
  case Nil
  then show ?case by simp
next
  case (Cons e es)
  have j: "\<not> 2147483647 \<le> j" using Cons.prems(3) by simp
  have step: "redisProtocolToLuaType (LNumber (of_nat (j + 1)) # LTable t # lua)
                (wire e @ concat (map wire es) @ rest)
              = Some (decoded_value e # LNumber (of_nat (j + 1)) # LTable t # lua,
                      concat (map wire es) @ rest)"
    by (rule Cons.prems(1)) simp
  have upd: "lua_rawset t (LNumber (of_nat (j + 1))) (decoded_value e)
             = t @ [(LNumber (of_nat (Suc j)), decoded_value e)]"
    using Cons.prems(2) [of "Suc j"]
    by (simp add: lua_rawset_def decoded_value_not_nil update_fresh)
  have fresh': "\<And>n. Suc j < n \<Longrightarrow>
                  LNumber (of_nat n) \<notin> fst ` set (t @ [(LNumber (of_nat (Suc j)), decoded_value e)])"
    using Cons.prems(2) by auto
  have IH: "multibulk_loop (\<lambda>s. redisProtocolToLuaType (fst s) (snd s)) (length es) (Suc j)
              (LTable (t @ [(LNumber (of_nat (Suc j)), decoded_value e)]) # lua,
               concat (map wire es) @ rest)
            = Some (LTable ((t @ [(LNumber (of_nat (Suc j)), decoded_value e)])
                      @ array_entries (Suc j) (map decoded_value es)) # lua, rest)"
    using Cons.prems(1,3) by (intro Cons.IH fresh') simp_all
  show ?case
    using j step upd IH by simp
qed

lemma header_count:
  "strchr (tl (t # to_string i @ CRLF @ rest)) CR = Some (CR # LF # rest)"
  "line_before (t # to_string i @ CRLF @ rest) (CR # LF # rest) = to_string i"
  using header_line [OF to_string_no_CR, of t i rest] by simp_all

lemma decode_wire:
  "well_formed r \<Longrightarrow>
     redisProtocolToLuaType lua (wire r @ rest) = Some (decoded_value r # lua, rest)"
proof (induction r arbitrary: lua rest)
  case (Integer i)
  then show ?case by (simp add: decode_Integer)
next
  case (Bulk s)
  then show ?case by (simp add: decode_Bulk)
next
  case Nil
  show ?case by (simp add: decode_Nil)
next
  case (Status s)
  then show ?case by (simp add: decode_Status)
next
  case (Error s)
  then show ?case by (simp add: decode_Error)
next
  case (Array rs)
  have len: "length rs < 2 ^ 31" and wf: "\<And>e. e \<in> set rs \<Longrightarrow> well_formed e"
    using Array.prems by simp_all
  have n: "stoll (to_string (int (length rs))) = Some (int (length rs))"
    using len by (intro stoll_to_string) simp_all
  have loop: "multibulk_loop (\<lambda>s. redisProtocolToLuaType (fst s) (snd s)) (length rs) 0
                (LTable [] # lua, concat (map wire rs) @ rest)
              = Some (LTable ([] @ array_entries 0 (map decoded_value rs)) # lua, rest)"
    using len by (intro multibulk_loop_elements Array.IH wf) simp_all
  show ?case
    using n loop header_count [of "CHR ''*''" "int (length rs)" "concat (map wire rs) @ rest"]
    by (simp add: fmtMultiBulkLen_def redisProtocolToLuaType_Cons
        redisProtocolToLuaType_MultiBulk_def string2ll_def)
next
  case NilArray
  show ?case using decode_NilArray [of lua rest] by simp
qed

section \<open>Encoding decoded values\<close>

lemma map_of_array_entries:
  "map_of (array_entries j vs) (LNumber (of_nat n)) =
     (if j < n \<and> n \<le> j + length vs then Some (vs ! (n - j - 1)) else None)"
proof (induction vs arbitrary: j)
  case Nil
  show ?case by simp
next
  case (Cons v vs)
  show ?case
  proof (cases "n = Suc j")
    case True
    then show ?thesis by simp
  next
    case False
    then have "(of_nat n :: rat) \<noteq> of_nat (Suc j)"
      by (simp only: of_nat_eq_iff) simp
    then have "map_of (array_entries j (v # vs)) (LNumber (of_nat n))
               = map_of (array_entries (Suc j) vs) (LNumber (of_nat n))"
      by simp
    also have "\<dots> = (if Suc j < n \<and> n \<le> Suc j + length vs
                       then Some (vs ! (n - Suc j - 1)) else None)"
      by (rule Cons.IH)
    also have "\<dots> = (if j < n \<and> n \<le> j + length (v # vs)
                       then Some ((v # vs) ! (n - j - 1)) else None)"
    proof (cases "Suc j < n")
      case True
      then have "n - j - 1 = Suc (n - Suc j - 1)" by simp
      then show ?thesis using True by simp
    next
      case False
      with \<open>n \<noteq> Suc j\<close> show ?thesis by simp
    qed
    finally show ?thesis .
  qed
qed

lemma map_of_array_entries_string: "map_of (array_entries j vs) (LString s) = None"
  by (induction vs arbitrary: j) simp_all

lemma lua_rawget_array_string: "lua_rawget (array_entries j vs) (LString s) = LNil"
  by (simp add: lua_rawget_def map_of_array_entries_string)

lemma table_array_entries:
  assumes "LNil \<notin> set vs" "k \<le> length vs"
  shows "table_array (array_entries 0 vs) (Suc k) = drop k vs"
  using assms(2)
proof (induction "length vs - k" arbitrary: k)
  case 0
  then have k: "k = length vs" by simp
  then have "lua_rawget (array_entries 0 vs) (LNumber (of_nat (Suc k))) = LNil"
    by (simp only: lua_rawget_def map_of_array_entries) simp
  then show ?case
    using k by (subst table_array.simps) simp
next
  case (Suc d)
  then have k: "k < length vs" by simp
  then have get: "lua_rawget (array_entries 0 vs) (LNumber (of_nat (Suc k))) = vs ! k"
    by (simp only: lua_rawget_def map_of_array_entries) simp
  have "vs ! k \<noteq> LNil" using assms(1) k by (metis nth_mem)
  moreover have "table_array (array_entries 0 vs) (Suc (Suc k)) = drop (Suc k) vs"
    using Suc.hyps(2) k by (intro Suc.hyps(1)) simp_all
  ultimately show ?case
    using get k by (subst table_array.simps) (simp add: Cons_nth_drop_Suc)
qed

lemma those_map_Some:
  "(\<And>x. x \<in> set xs \<Longrightarrow> f (g x) = Some (h x)) \<Longrightarrow> those (map f (map g xs)) = Some (map h xs)"
  by (induction xs) simp_all

lemma encode_array:
  assumes "\<And>e. e \<in> set es \<Longrightarrow> luaValueToRedisReply (decoded_value e) = Some (wire e)"
  shows "luaValueToRedisReply (decoded_value (Array es)) = Some (wire (Array es))"
proof -
  let ?vs = "map decoded_value es"
  have nn: "LNil \<notin> set ?vs"
  proof
    assume "LNil \<in> set ?vs"
    then obtain e where "LNil = decoded_value e" by auto
    then have "decoded_value e = LNil" by (rule sym)
    then show False by (simp add: decoded_value_not_nil)
  qed
  have arr: "table_array (array_entries 0 ?vs) 1 = ?vs"
    using table_array_entries [OF nn, of 0] by simp
  have th: "those (map luaValueToRedisReply ?vs) = Some (map wire es)"
    using assms by (rule those_map_Some)
  have "luaValueToRedisReply (decoded_value (Array es))
        = map_option (\<lambda>rsp. fmtMultiBulkLen (int (length rsp)) @ concat rsp)
            (those (map luaValueToRedisReply (table_array (array_entries 0 ?vs) 1)))"
    by (simp add: lua_rawget_array_string)
  also have "\<dots> = map_option (\<lambda>rsp. fmtMultiBulkLen (int (length rsp)) @ concat rsp)
                      (Some (map wire es))"
    by (simp only: arr th)
  also have "\<dots> = Some (wire (Array es))"
    by simp
  finally show ?thesis .
qed

lemma round_trips_iff:
  "well_formed r \<Longrightarrow> round_trips r \<longleftrightarrow> luaValueToRedisReply (decoded_value r) = Some (wire r)"
  using decode_wire [of r "[]" "[]"] by (auto simp: round_trips_def)

lemma strmapchars_id:
  "CR \<notin> set s \<Longrightarrow> LF \<notin> set s \<Longrightarrow> strmapchars s [CR, LF] ''  '' 2 = s"
  by (induction s) (auto simp: strmapchars_def)

lemma c_string_id: "NUL \<notin> set s \<Longrightarrow> c_string s = s"
  by (auto simp: c_string_def takeWhile_eq_all_conv)

section \<open>The gateway, step by step\<close>


lemma luaPushError_eq:
  "luaPushError env error lua = LTable [(LString ''err'', LString (error_message env error))] # lua"
  by (simp add: luaPushError_def error_message_def split: option.splits)

lemma luaRaiseError_pushed:
  "luaRaiseError (luaPushError env error lua) = Raised (LString (error_message env error))"
  by (simp add: luaPushError_eq lua_rawget_def)

lemma push_decoded_stack:
  "push_decoded r ls reply = Some (x, ls') \<Longrightarrow> \<exists>stk. ls' = ls\<lparr>stack := stk\<rparr>"
  by (auto simp: push_decoded_def)

lemma push_reply_cases:
  assumes "push_reply env r command ls reply = Some (x, ls')"
  shows "(\<exists>stk. ls' = ls\<lparr>stack := stk\<rparr>)
         \<and> (\<forall>v. x = Unwound v \<longrightarrow> (\<exists>stk. luaSortArray env (globals ls) stk = Some (Inl v)))"
proof (cases "cmd_sort_for_script command \<and> \<not> lua_replicate_commands ls
            \<and> 1 < length reply \<and> hd reply = CHR ''*'' \<and> reply ! 1 \<noteq> CHR ''-''")
  case True
  show ?thesis
  proof (cases "redisProtocolToLuaType (stack ls) reply")
    case None
    with assms True show ?thesis
      unfolding push_reply_def Let_def by (simp del: One_nat_def)
  next
    case (Some d)
    show ?thesis
    proof (cases "luaSortArray env (globals ls) (fst d)")
      case None
      with assms True Some show ?thesis
        unfolding push_reply_def Let_def by (simp del: One_nat_def)
    next
      case sorted: (Some sorted)
      show ?thesis
      proof (cases sorted)
        case (Inl v)
        with assms True Some sorted have "x = Unwound v" "ls' = ls\<lparr>stack := fst d\<rparr>"
          unfolding push_reply_def Let_def by (simp_all del: One_nat_def)
        with sorted Inl show ?thesis by auto
      next
        case (Inr l)
        with assms True Some sorted have "\<exists>b. x = Return1 b" "ls' = ls\<lparr>stack := l\<rparr>"
          unfolding push_reply_def Let_def by (auto simp del: One_nat_def)
        then show ?thesis by auto
      qed
    qed
  qed
next
  case False
  let ?r' = "if r \<and> reply \<noteq> [] \<and> hd reply \<noteq> CHR ''-'' then False else r"
  from assms False have "push_decoded ?r' ls reply = Some (x, ls')"
    unfolding push_reply_def Let_def by (simp del: One_nat_def split: if_splits)
  then show ?thesis
    by (auto simp: push_decoded_def)
qed

lemma push_reply_stack:
  "push_reply env r command ls reply = Some (x, ls') \<Longrightarrow> \<exists>stk. ls' = ls\<lparr>stack := stk\<rparr>"
  using push_reply_cases by blast

lemma gateway_run_fields:
  assumes "gateway_run env r args command s fake ls = Some (x, ls')"
  shows "inuse ls' = inuse ls" "trace ls' = trace ls @ [EvRunSessionCmd args]"
        "lua_random_dirty ls' = lua_random_dirty ls" "lua_write_dirty ls' = lua_write_dirty ls"
        "lua_replicate_commands ls' = lua_replicate_commands ls"
proof -
  let ?res = "runSessionCmd env (sync_access_flags env s fake) (store ls)"
  let ?ls = "ls\<lparr>fakeSess := Some (fst (snd ?res)), store := snd (snd ?res),
                trace := trace ls @ [EvRunSessionCmd args]\<rparr>"
  have "\<exists>stk. ls' = ?ls\<lparr>stack := stk\<rparr>"
  proof (cases "fst ?res")
    case (Inl status)
    with assms have "push_decoded r ?ls status = Some (x, ls')"
      by (simp add: gateway_run_def Let_def)
    then show ?thesis by (rule push_decoded_stack)
  next
    case (Inr reply)
    with assms have "push_reply env r command ?ls reply = Some (x, ls')"
      by (simp add: gateway_run_def Let_def)
    then show ?thesis by (rule push_reply_stack)
  qed
  then obtain stk where ls': "ls' = ?ls\<lparr>stack := stk\<rparr>" by blast
  show "inuse ls' = inuse ls" "trace ls' = trace ls @ [EvRunSessionCmd args]"
        "lua_random_dirty ls' = lua_random_dirty ls" "lua_write_dirty ls' = lua_write_dirty ls"
        "lua_replicate_commands ls' = lua_replicate_commands ls"
    by (simp_all add: ls')
qed


text \<open>
  What the guarded part does to the state: either nothing is dispatched and the
  flags stay, or the command is dispatched once and its flags are recorded.
\<close>

lemma gateway_guarded_cases:
  assumes "gateway_guarded env r args s fake ls = Some (x, ls')"
  shows "inuse ls' = inuse ls \<and> lua_replicate_commands ls' = lua_replicate_commands ls
         \<and> ((trace ls' = trace ls \<and> lua_random_dirty ls' = lua_random_dirty ls
               \<and> lua_write_dirty ls' = lua_write_dirty ls)
            \<or> (\<exists>command. commandMap env (toLower (hd args)) = Some command
                  \<and> \<not> cmd_noscript command
                  \<and> \<not> (cmd_write command \<and> lua_random_dirty ls \<and> \<not> lua_replicate_commands ls)
                  \<and> trace ls' = trace ls @ [EvRunSessionCmd args]
                  \<and> lua_random_dirty ls' = (cmd_random command \<or> lua_random_dirty ls)
                  \<and> lua_write_dirty ls' = (cmd_write command \<or> lua_write_dirty ls)))"
proof -
  let ?fake = "fake\<lparr>sess_args := args\<rparr>"
  let ?ls = "ls\<lparr>fakeSess := Some ?fake\<rparr>"
  show ?thesis
  proof (cases "precheck env ?fake")
    case (Inl status)
    with assms have "push_decoded r ?ls status = Some (x, ls')"
      by (simp add: gateway_guarded_def Let_def)
    then obtain stk where "ls' = ?ls\<lparr>stack := stk\<rparr>"
      using push_decoded_stack by blast
    then show ?thesis by simp
  next
    case (Inr cmdName)
    show ?thesis
    proof (cases "commandMap env (toLower (hd args))")
      case None
      with assms Inr show ?thesis by (simp add: gateway_guarded_def Let_def)
    next
      case (Some command)
      show ?thesis
      proof (cases "cmd_noscript command")
        case True
        with assms Inr Some have "ls' = ?ls\<lparr>stack := luaPushError env
               ''This Redis command is not allowed from scripts'' (stack ?ls)\<rparr>"
          by (simp add: gateway_guarded_def Let_def)
        then show ?thesis by simp
      next
        case noscript: False
        show ?thesis
        proof (cases "cmd_write command \<and> lua_random_dirty ls \<and> \<not> lua_replicate_commands ls")
          case True
          with assms Inr Some noscript
          have "ls' = ?ls\<lparr>stack := luaPushError env write_after_random_error (stack ?ls)\<rparr>"
            by (simp add: gateway_guarded_def Let_def)
          then show ?thesis by simp
        next
          case False
          let ?ls2 = "?ls\<lparr>lua_random_dirty := (if cmd_random command then True else lua_random_dirty ?ls),
                    lua_write_dirty := (if cmd_write command then True else lua_write_dirty ?ls)\<rparr>"
          from assms Inr Some noscript False
          have run: "gateway_run env r args command s ?fake ?ls2 = Some (x, ls')"
            by (simp add: gateway_guarded_def Let_def)
          have "inuse ls' = inuse ls" "lua_replicate_commands ls' = lua_replicate_commands ls"
            "trace ls' = trace ls @ [EvRunSessionCmd args]"
            "lua_random_dirty ls' = (cmd_random command \<or> lua_random_dirty ls)"
            "lua_write_dirty ls' = (cmd_write command \<or> lua_write_dirty ls)"
            using gateway_run_fields [OF run] by simp_all
          with Some noscript False show ?thesis by blast
        qed
      qed
    qed
  qed
qed

text \<open>The call with the busy flag clear, at least one argument, all of them strings or numbers.\<close>

lemma luaRedisGenericCommand_guarded:
  assumes "sess ls = Some s" "inuse ls = 0" "stack ls \<noteq> []"
    "length (call_args env ls) = length (stack ls)"
  shows "luaRedisGenericCommand env raise_error ls =
           (case gateway_guarded env raise_error (call_args env ls) s (call_session s ls)
                   (ls\<lparr>fakeSess := Some (call_session s ls), inuse := 1\<rparr>) of
              None \<Rightarrow> (Undefined, ls)
            | Some (Unwound v, l) \<Rightarrow> (Raised v, l)
            | Some (Return1 r, l) \<Rightarrow>
                ((if r then luaRaiseError (stack l) else Returned 1),
                 l\<lparr>inuse := inuse l - 1\<rparr>))"
  using assms
  by (simp add: luaRedisGenericCommand_def call_args_def call_session_def Let_def
           split: option.splits prod.splits guarded_exit.splits)



text \<open>The two example calls of a command whose reply is sorted.\<close>

lemma members_reply_facts:
  "members_reply \<noteq> []" "hd members_reply = CHR ''*''" "Suc 0 < length members_reply"
  "members_reply ! Suc 0 \<noteq> CHR ''-''"
  by (simp_all add: members_reply_def fmtMultiBulkLen_def to_string_def digits.simps digit_char_def)

lemma members_reply_decoded:
  "redisProtocolToLuaType lua members_reply
     = Some (LTable [(LNumber 1, LString ''b''), (LNumber 2, LString ''a'')] # lua, [])"
  using decode_wire [of "Array [Bulk ''b'', Bulk ''a'']" lua "[]"]
  by (simp add: members_reply_def)

lemma sort_env_fields:
  "precheck sort_env f = Inr (hd (sess_args f))"
  "commandMap sort_env ''smembers'' = Some \<lparr>cmd_noscript = False, cmd_write = False,
                                             cmd_random = False, cmd_sort_for_script = True\<rparr>"
  "runSessionCmd sort_env f db = (Inr members_reply, f, db)"
  "isClusterEnabled sort_env = False"
  "lua_getinfo sort_env = None"
  "lua_call_sort sort_env (LFunction name) array cmp = (None, array)"
  by (simp_all add: sort_env_def test_env_def)


lemmas gateway_defs =
  luaRedisGenericCommand_def gateway_guarded_def gateway_run_def push_reply_def
  sync_access_flags_def updateFakeClient_def new_session_def test_session_def test_state_def
  toLower_def toLower_char_def Let_def sort_env_fields members_reply_facts members_reply_decoded


text \<open>
  With \<open>nil\<close> assigned to \<open>table\<close>, the call runs the command and is then left
  by the type error of \<open>luaSortArray\<close>; the busy flag stays set, and the next
  call, on a new frame, gets the recursion error and runs nothing.
\<close>

lemma sort_raise_keeps_busy_flag:
  "inuse no_table_state = 0"
  "fst (luaRedisGenericCommand sort_env False no_table_state) = Raised type_error"
  "inuse (snd (luaRedisGenericCommand sort_env False no_table_state)) = 1"
  "trace (snd (luaRedisGenericCommand sort_env False no_table_state))
     = [EvRunSessionCmd [''smembers'', ''s'']]"
  "fst (luaRedisGenericCommand sort_env False
          ((snd (luaRedisGenericCommand sort_env False no_table_state))
             \<lparr>stack := [LString ''s'', LString ''smembers'']\<rparr>)) = Returned 1"
  "stack (snd (luaRedisGenericCommand sort_env False
          ((snd (luaRedisGenericCommand sort_env False no_table_state))
             \<lparr>stack := [LString ''s'', LString ''smembers'']\<rparr>)))
     = [LTable [(LString ''err'', LString recursion_warning)], LString ''s'', LString ''smembers'']"
  "trace (snd (luaRedisGenericCommand sort_env False
          ((snd (luaRedisGenericCommand sort_env False no_table_state))
             \<lparr>stack := [LString ''s'', LString ''smembers'']\<rparr>)))
     = [EvRunSessionCmd [''smembers'', ''s'']]"
  by (simp_all add: no_table_state_def members_state_def gateway_defs library_globals_def
        luaPushError_def)
section \<open>The runner, step by step\<close>

lemma sint_word_of_int_32:
  "0 \<le> n \<Longrightarrow> n < 2 ^ 31 \<Longrightarrow> sint (word_of_int n :: 32 word) = n"
  by (simp add: sint_sbintrunc' signed_take_bit_int_eq_self)

lemma to_int_le: "0 \<le> n \<Longrightarrow> to_int n \<le> n"
proof (cases "n < 2 ^ 31")
  case True
  assume "0 \<le> n"
  with True have "to_int n = n"
    by (simp add: to_int_def sint_word_of_int_32)
  then show ?thesis by simp
next
  case False
  have "sint (word_of_int n :: 32 word) < 2 ^ 31"
    using sint_lt [of "word_of_int n :: 32 word"] by simp
  with False show ?thesis by (simp add: to_int_def)
qed

lemma to_int_id: "0 \<le> n \<Longrightarrow> n < 2 ^ 31 \<Longrightarrow> to_int n = n"
  by (simp add: to_int_def sint_word_of_int_32)

lemma lua_getglobal_fields:
  "stack (lua_getglobal name ls) = global_value ls name # stack ls"
  "globals (lua_getglobal name ls) = globals ls"
  "trace (lua_getglobal name ls) = trace ls @ [EvGetGlobal name]"
  by (simp_all add: lua_getglobal_def global_value_def)

text \<open>The lookup finds the function: two lookups and nothing else.\<close>

lemma resolve_function_found:
  assumes "global_value ls funcname \<noteq> LNil"
  shows "resolve_function env evalsha body funcname ls =
           (Inr (), lua_getglobal funcname (lua_getglobal ''__redis__err__handler'' ls))"
  using assms
  by (simp add: resolve_function_def Let_def lua_getglobal_fields global_value_def
                lua_getglobal_def)

lemma resolve_function_noscript:
  assumes "global_value ls funcname = LNil"
  shows "resolve_function env True body funcname ls =
           (Inl (ERR_LUA (''-NOSCRIPT No matching script. Please use EVAL.'' @ CRLF)),
            ls\<lparr>trace := trace ls @ [EvGetGlobal ''__redis__err__handler'', EvGetGlobal funcname]\<rparr>)"
  using assms
  by (simp add: resolve_function_def Let_def global_value_def lua_getglobal_def)

lemma luaCreateFunction_ok:
  assumes "luaCreateFunction env body ls = (Inr name, ls')"
  shows "name = ''f_'' @ sha1hex env body
         \<and> ls' = ls\<lparr>trace := trace ls @ [EvLoadBuffer (''function '' @ name @ ''() '' @ body @ [LF] @ ''end''),
                                        EvPcallChunk (''function '' @ name @ ''() '' @ body @ [LF] @ ''end'')],
                    globals := (globals ls)(name \<mapsto> LFunction body)\<rparr>"
  using assms
  by (auto simp: luaCreateFunction_def Let_def split: option.splits)

lemma resolve_function_defines:
  assumes "resolve_function env evalsha body (''f_'' @ sha1hex env body) ls = (Inr (), ls1)"
  shows "global_value ls1 (''f_'' @ sha1hex env body) \<noteq> LNil
         \<and> hd (stack ls1) = global_value ls1 (''f_'' @ sha1hex env body)"
proof (cases "global_value ls (''f_'' @ sha1hex env body) = LNil")
  case False
  from assms [unfolded resolve_function_found [OF False]]
  have "ls1 = lua_getglobal (''f_'' @ sha1hex env body)
                          (lua_getglobal ''__redis__err__handler'' ls)"
    by simp
  with False show ?thesis
    by (simp add: lua_getglobal_def global_value_def)
next
  case True
  let ?fn = "''f_'' @ sha1hex env body"
  let ?ls3 = "ls\<lparr>trace := trace ls @ [EvGetGlobal ''__redis__err__handler'', EvGetGlobal ?fn],
                  stack := global_value ls ''__redis__err__handler'' # stack ls\<rparr>"
  have es: "\<not> evalsha"
  proof
    assume "evalsha"
    with assms have "resolve_function env True body ?fn ls = (Inr (), ls1)" by simp
    then show False unfolding resolve_function_noscript [OF True] by simp
  qed
  obtain r ls4 where c: "luaCreateFunction env body ?ls3 = (r, ls4)"
    by (cases "luaCreateFunction env body ?ls3")
  have unfold: "resolve_function env False body ?fn ls =
     (case (r, ls4) of
        (Inl e, ls4) \<Rightarrow> (Inl (ERR_LUA ''luaCreateFunction failed''), ls4\<lparr>stack := tl (stack ls4)\<rparr>)
      | (Inr name, ls4) \<Rightarrow>
          (let ls5 = lua_getglobal ?fn ls4
           in if hd (stack ls5) = LNil then (Inl AssertFailed, ls5) else (Inr (), ls5)))"
    using True c
    by (cases r) (simp_all add: resolve_function_def Let_def global_value_def lua_getglobal_def)
  show ?thesis
  proof (cases r)
    case (Inl e)
    from assms es have "resolve_function env False body ?fn ls = (Inr (), ls1)" by simp
    then show ?thesis unfolding unfold Inl by simp
  next
    case (Inr name)
    with c have "luaCreateFunction env body ?ls3 = (Inr name, ls4)" by simp
    from luaCreateFunction_ok [OF this]
    have g: "globals ls4 ?fn = Some (LFunction body)" by simp
    from assms es have "resolve_function env False body ?fn ls = (Inr (), ls1)" by simp
    then have "ls1 = lua_getglobal ?fn ls4"
      unfolding unfold Inr by (simp add: Let_def split: if_splits)
    with g show ?thesis
      by (simp add: lua_getglobal_def global_value_def)
  qed
qed

lemma stoll_0: "stoll ''0'' = Some 0"
  by (simp add: stoll_def parse_nat_def is_digit_def digit_val_def)

lemma stoll_1: "stoll ''1'' = Some 1"
  by (simp add: stoll_def parse_nat_def is_digit_def digit_val_def)

lemma sha1hex_test_env: "sha1hex test_env script = ''0000000000000000000000000000000000000000''"
  by (simp add: sha1hex_def test_env_def hash_byte_def cset_def upt_rec [of _ "numeral _"])

lemma test_env_fields:
  "precheck test_env f = Inr (hd (sess_args f))"
  "runSessionCmd test_env f db = (Inr (''+OK'' @ CRLF), f, db)"
  "getAllKeysLocked test_env f args keyidx = None"
  "isClusterEnabled test_env = False"
  "luaTimeLimit test_env = 5000"
  "msSinceEpoch test_env = 0"
  "luaL_loadbuffer test_env chunk = None"
  "lua_pcall_chunk test_env chunk = None"
  "lua_pcall_function test_env fn ls = (Inr (LNumber 1), ls)"
  "lua_getinfo test_env = None"
  by (simp_all add: test_env_def)

lemmas run_defs =
  evalGenericCommand_def run_resolved_def resolve_function_def
  luaCreateFunction_def lua_getglobal_def luaSetGlobalArray_def updateFakeClient_def
  test_env_fields sha1hex_test_env test_state_def test_session_def new_session_def
  function_name_def Let_def to_int_def stoll_0 stoll_1 to_int64_def fmtLongLong_def
  to_string_def digits.simps digit_char_def

lemma luaSetGlobalArray_in_range:
  assumes "0 \<le> num" "int start + num \<le> int (length args)"
  shows "luaSetGlobalArray var args start num ls =
           Some (ls\<lparr>globals := (globals ls)(var \<mapsto> LTable (array_of 0 (take (nat num) (drop start args)))),
                    trace := trace ls @ [EvSetGlobal var (LTable (array_of 0 (take (nat num) (drop start args))))]\<rparr>)"
  using assms by (simp add: luaSetGlobalArray_def Let_def)

lemma resolve_function_trace:
  "\<exists>mid. trace (snd (resolve_function env evalsha body fn ls)) = trace ls @ mid
         \<and> list_all is_resolve_event mid"
proof (cases "global_value ls fn = LNil")
  case False
  show ?thesis
    unfolding resolve_function_found [OF False]
    by (simp add: lua_getglobal_def is_resolve_event_def)
next
  case nil: True
  show ?thesis
  proof (cases evalsha)
    case True
    then show ?thesis
      using resolve_function_noscript [OF nil, of env body]
      by (simp add: is_resolve_event_def)
  next
    case False
    let ?ls3 = "ls\<lparr>trace := trace ls @ [EvGetGlobal ''__redis__err__handler'', EvGetGlobal fn],
                    stack := global_value ls ''__redis__err__handler'' # stack ls\<rparr>"
    have c: "\<exists>mid. trace (snd (luaCreateFunction env body ?ls3)) = trace ?ls3 @ mid
                   \<and> list_all is_resolve_event mid"
      by (simp add: luaCreateFunction_def Let_def is_resolve_event_def split: option.splits)
    then obtain mid where mid: "trace (snd (luaCreateFunction env body ?ls3)) = trace ?ls3 @ mid"
      "list_all is_resolve_event mid" by blast
    obtain r ls4 where r: "luaCreateFunction env body ?ls3 = (r, ls4)"
      by (cases "luaCreateFunction env body ?ls3")
    have t4: "trace ls4 = trace ls @ [EvGetGlobal ''__redis__err__handler'', EvGetGlobal fn] @ mid"
      using mid(1) r by simp
    have "trace (snd (resolve_function env evalsha body fn ls)) = trace ls4
          \<or> trace (snd (resolve_function env evalsha body fn ls)) = trace ls4 @ [EvGetGlobal fn]"
      using nil False r
      by (cases r)
         (simp_all add: resolve_function_def Let_def global_value_def lua_getglobal_def)
    then show ?thesis
    proof
      assume "trace (snd (resolve_function env evalsha body fn ls)) = trace ls4"
      with t4 mid(2) show ?thesis by (simp add: is_resolve_event_def)
    next
      assume "trace (snd (resolve_function env evalsha body fn ls)) = trace ls4 @ [EvGetGlobal fn]"
      with t4 mid(2) show ?thesis by (simp add: is_resolve_event_def)
    qed
  qed
qed

lemma run_resolved_trace:
  assumes "0 \<le> numkeys" "numkeys \<le> int (length args) - 3" "length args < 2 ^ 31"
    and ext: "\<forall>f l. \<exists>t. trace (snd (lua_pcall_function env f l)) = trace l @ t"
  shows "\<exists>rest. trace (snd (run_resolved env s args numkeys fn ls)) =
           trace ls @ [EvSetGlobal ''KEYS'' (LTable (array_of 0 (take (nat numkeys) (drop 3 args)))),
                       EvSetGlobal ''ARGV'' (LTable (array_of 0 (drop (3 + nat numkeys) args))),
                       EvLockKeys [3 ..< 3 + nat numkeys]] @ rest"
proof -
  let ?K = "LTable (array_of 0 (take (nat numkeys) (drop 3 args)))"
  let ?A = "LTable (array_of 0 (drop (3 + nat numkeys) args))"
  have n1: "to_int numkeys = numkeys"
    using assms(1-3) by (intro to_int_id) simp_all
  have n2: "to_int (int (length args) - 3 - numkeys) = int (length args) - 3 - numkeys"
    using assms(1-3) by (intro to_int_id) simp_all
  have k: "luaSetGlobalArray ''KEYS'' args 3 (to_int numkeys) ls
           = Some (ls\<lparr>globals := (globals ls)(''KEYS'' \<mapsto> ?K),
                       trace := trace ls @ [EvSetGlobal ''KEYS'' ?K]\<rparr>)"
    unfolding n1 using assms(1,2) by (subst luaSetGlobalArray_in_range) simp_all
  let ?ls0 = "ls\<lparr>globals := (globals ls)(''KEYS'' \<mapsto> ?K),
                  trace := trace ls @ [EvSetGlobal ''KEYS'' ?K]\<rparr>"
  have "take (nat (int (length args) - 3 - numkeys)) (drop (3 + nat numkeys) args)
        = drop (3 + nat numkeys) args"
    using assms(1,2) by simp
  then have a: "luaSetGlobalArray ''ARGV'' args (3 + nat numkeys)
             (to_int (int (length args) - 3 - numkeys)) ?ls0
           = Some (?ls0\<lparr>globals := (globals ?ls0)(''ARGV'' \<mapsto> ?A),
                         trace := trace ?ls0 @ [EvSetGlobal ''ARGV'' ?A]\<rparr>)"
    unfolding n2 using assms(1,2) by (subst luaSetGlobalArray_in_range) simp_all
  let ?ls1 = "?ls0\<lparr>globals := (globals ?ls0)(''ARGV'' \<mapsto> ?A),
                    trace := trace ?ls0 @ [EvSetGlobal ''ARGV'' ?A]\<rparr>"
  let ?fake = "updateFakeClient s (fakeSess ?ls1)"
  let ?ls3 = "?ls1\<lparr>fakeSess := Some ?fake,
                    trace := trace ?ls1 @ [EvLockKeys [3 ..< 3 + nat numkeys]]\<rparr>"
  have t3: "trace ?ls3 = trace ls @ [EvSetGlobal ''KEYS'' ?K, EvSetGlobal ''ARGV'' ?A,
                                     EvLockKeys [3 ..< 3 + nat numkeys]]"
    by simp
  have bind: "Option.bind (luaSetGlobalArray ''KEYS'' args 3 (to_int numkeys) ls)
             (luaSetGlobalArray ''ARGV'' args (3 + nat numkeys)
                (to_int (int (length args) - 3 - numkeys))) = Some ?ls1"
    unfolding k using a by simp
  show ?thesis
  proof (cases "getAllKeysLocked env ?fake args [3 ..< 3 + nat numkeys]")
    case (Some status)
    have "trace (snd (run_resolved env s args numkeys fn ls)) = trace ?ls3"
      unfolding run_resolved_def bind using Some by (simp add: Let_def)
    then show ?thesis unfolding t3 by simp
  next
    case None
    let ?ls4 = "?ls3\<lparr>lua_time_start := msSinceEpoch env\<rparr>"
    let ?ls5 = "(if 0 < luaTimeLimit env
                 then ?ls4\<lparr>hook := True, trace := trace ?ls4 @ [EvSetHook]\<rparr> else ?ls4)"
    let ?ls6 = "?ls5\<lparr>stack := tl (stack ?ls5), trace := trace ?ls5 @ [EvPcallFunction fn]\<rparr>"
    let ?call = "lua_pcall_function env (hd (stack ?ls5)) ?ls6"
    obtain t where t: "trace (snd ?call) = trace ?ls6 @ t"
      using ext by blast
    have t6: "\<exists>r6. trace ?ls6 = trace ?ls3 @ r6"
      by simp
    have "trace (snd (run_resolved env s args numkeys fn ls)) = trace (snd ?call)"
      unfolding run_resolved_def bind using None
      by (simp add: Let_def split: sum.splits option.splits)
    with t t6 show ?thesis unfolding t3 by auto
  qed
qed

lemma example_run_trace:
  "trace (snd example_run) =
     [EvSrand48 0,
      EvGetGlobal ''__redis__err__handler'',
      EvGetGlobal ''f_0000000000000000000000000000000000000000'',
      EvLoadBuffer (''function f_0000000000000000000000000000000000000000() return 1''
                    @ [LF] @ ''end''),
      EvPcallChunk (''function f_0000000000000000000000000000000000000000() return 1''
                    @ [LF] @ ''end''),
      EvGetGlobal ''f_0000000000000000000000000000000000000000'',
      EvSetGlobal ''KEYS'' (LTable [(LNumber 1, LString ''k'')]),
      EvSetGlobal ''ARGV'' (LTable [(LNumber 1, LString ''a'')]),
      EvLockKeys [3],
      EvSetHook,
      EvPcallFunction ''f_0000000000000000000000000000000000000000'']"
  by (simp add: example_run_def run_defs)

section \<open>Runs of scripts that only draw random numbers\<close>

text \<open>\<open>redis_math_random\<close> reads the generator and the frame and writes only them.\<close>

lemma redis_math_random_frame:
  "\<exists>res x stk. \<forall>ls. rand ls = r \<and> stack ls = st \<longrightarrow>
       redis_math_random env ls = (res, ls\<lparr>rand := x, stack := stk\<rparr>)"
proof -
  let ?step = "redisLrand48 r"
  let ?r = "round_double (of_int (fst ?step mod REDIS_LRAND48_MAX) / of_int REDIS_LRAND48_MAX)"
  show ?thesis
  proof (cases "rev st")
    case Nil
    then show ?thesis
      by (intro exI [of _ "Returned 1"] exI [of _ "snd ?step"] exI [of _ "LNumber ?r # st"])
         (simp add: redis_math_random_def Let_def)
  next
    case (Cons a as)
    note one = this
    show ?thesis
    proof (cases as)
      case Nil
      show ?thesis
      proof (cases "luaL_checkint env a")
        case None
        with one Nil show ?thesis
          by (intro exI [of _ "Raised (LString ''bad argument #1 (number expected)'')"]
                exI [of _ "snd ?step"] exI [of _ st])
             (simp add: redis_math_random_def Let_def)
      next
        case (Some u)
        show ?thesis
        proof (cases "1 \<le> u")
          case False
          with one Nil Some show ?thesis
            by (intro exI [of _ "Raised (LString ''bad argument #1 (interval is empty)'')"]
                  exI [of _ "snd ?step"] exI [of _ st])
               (simp add: redis_math_random_def Let_def)
        next
          case True
          with one Nil Some show ?thesis
            by (intro exI [of _ "Returned 1"] exI [of _ "snd ?step"]
                  exI [of _ "LNumber (round_double (of_int \<lfloor>round_double (?r * of_int u)\<rfloor> + 1)) # st"])
               (simp add: redis_math_random_def Let_def)
        qed
      qed
    next
      case (Cons b bs)
      note two = this
      show ?thesis
      proof (cases bs)
        case (Cons c cs)
        with one two show ?thesis
          by (intro exI [of _ "Raised (LString ''wrong number of arguments'')"]
                exI [of _ "snd ?step"] exI [of _ st])
             (simp add: redis_math_random_def Let_def)
      next
        case Nil
        show ?thesis
        proof (cases "luaL_checkint env a")
          case None
          with one two Nil show ?thesis
            by (intro exI [of _ "Raised (LString ''bad argument #1 (number expected)'')"]
                  exI [of _ "snd ?step"] exI [of _ st])
               (simp add: redis_math_random_def Let_def)
        next
          case l: (Some l)
          show ?thesis
          proof (cases "luaL_checkint env b")
            case None
            with one two Nil l show ?thesis
              by (intro exI [of _ "Raised (LString ''bad argument #2 (number expected)'')"]
                    exI [of _ "snd ?step"] exI [of _ st])
                 (simp add: redis_math_random_def Let_def)
          next
            case (Some u)
            show ?thesis
            proof (cases "l \<le> u")
              case False
              with one two Nil l Some show ?thesis
                by (intro exI [of _ "Raised (LString ''bad argument #2 (interval is empty)'')"]
                      exI [of _ "snd ?step"] exI [of _ st])
                   (simp add: redis_math_random_def Let_def)
            next
              case True
              show ?thesis
              proof (cases "in_int_range (u - l + 1)")
                case False
                with one two Nil l Some True show ?thesis
                  by (intro exI [of _ Undefined] exI [of _ "snd ?step"] exI [of _ st])
                     (simp add: redis_math_random_def Let_def)
              next
                case range: True
                with one two Nil l Some True show ?thesis
                  by (intro exI [of _ "Returned 1"] exI [of _ "snd ?step"]
                        exI [of _ "LNumber (round_double
                                      (of_int \<lfloor>round_double (?r * of_int (u - l + 1))\<rfloor> + of_int l)) # st"])
                     (simp add: redis_math_random_def Let_def)
              qed
            qed
          qed
        qed
      qed
    qed
  qed
qed

lemma rng_script_frame:
  "\<exists>res x. \<forall>ls. rand ls = r \<longrightarrow> rng_script env cs acc ls = (res, ls\<lparr>rand := x\<rparr>)"
proof (induction cs arbitrary: acc r)
  case Nil
  show ?case
    by (intro exI [of _ "Inr (LTable (array_entries 0 (rev acc)))"] exI [of _ r]) simp
next
  case (Cons argv cs)
  obtain res1 x1 stk1 where f: "\<forall>ls. rand ls = r \<and> stack ls = rev argv \<longrightarrow>
       redis_math_random env ls = (res1, ls\<lparr>rand := x1, stack := stk1\<rparr>)"
    using redis_math_random_frame [of r "rev argv" env] by blast
  have call: "redis_math_random env (ls\<lparr>stack := rev argv\<rparr>)
              = (res1, ls\<lparr>stack := rev argv\<rparr>\<lparr>rand := x1, stack := stk1\<rparr>)"
    if "rand ls = r" for ls :: "'a LuaState"
    using f that by simp
  show ?case
  proof (cases res1)
    case (Returned n)
    obtain res2 x2 where g: "\<forall>ls. rand ls = x1 \<longrightarrow>
        rng_script env cs (hd stk1 # acc) ls = (res2, ls\<lparr>rand := x2\<rparr>)"
      using Cons.IH [of x1 "hd stk1 # acc"] by blast
    have "rng_script env (argv # cs) acc ls = (res2, ls\<lparr>rand := x2\<rparr>)"
      if "rand ls = r" for ls :: "'a LuaState"
    proof -
      have "rng_script env (argv # cs) acc ls = rng_script env cs (hd stk1 # acc) (ls\<lparr>rand := x1\<rparr>)"
        using call [OF that] Returned by (simp add: Let_def)
      also have "\<dots> = (res2, ls\<lparr>rand := x1\<rparr>\<lparr>rand := x2\<rparr>)"
        using g by simp
      finally show ?thesis by simp
    qed
    then show ?thesis by blast
  next
    case (Raised v)
    have "rng_script env (argv # cs) acc ls = (Inl (error_text v), ls\<lparr>rand := x1\<rparr>)"
      if "rand ls = r" for ls :: "'a LuaState"
      using call [OF that] Raised by (simp add: Let_def)
    then show ?thesis by blast
  next
    case Undefined
    have "rng_script env (argv # cs) acc ls = (Inl [], ls\<lparr>rand := x1\<rparr>)"
      if "rand ls = r" for ls :: "'a LuaState"
      using call [OF that] Undefined by (simp add: Let_def)
    then show ?thesis by blast
  qed
qed

lemma updateFakeClient_idem:
  "updateFakeClient s (Some (updateFakeClient s f)) = updateFakeClient s f"
  by (simp add: updateFakeClient_def Let_def)

lemma luaSetGlobalArray_alt:
  "luaSetGlobalArray var args start num ls =
     (if array_out_of_range args start num then None
      else Some (ls\<lparr>globals := (globals ls)(var \<mapsto> array_value args start num),
                   trace := trace ls @ [EvSetGlobal var (array_value args start num)]\<rparr>))"
  by (simp add: luaSetGlobalArray_def array_out_of_range_def array_value_def Let_def)

lemma run_resolved_rng:
  assumes rng: "\<forall>f l. lua_pcall_function env f l = rng_script env (calls f) [] l"
  shows "\<exists>out. \<forall>l. hd (stack l) = fnv \<and> updateFakeClient s (fakeSess l) = fake \<and> rand l = x \<longrightarrow>
           fst (run_resolved env s args nk fn l) = out
           \<and> (\<forall>name. name \<noteq> ''KEYS'' \<and> name \<noteq> ''ARGV'' \<longrightarrow>
                 globals (snd (run_resolved env s args nk fn l)) name = globals l name)
           \<and> updateFakeClient s (fakeSess (snd (run_resolved env s args nk fn l))) = fake"
proof -
  let ?K = "array_value args 3 (to_int nk)"
  let ?n2 = "to_int (int (length args) - 3 - nk)"
  let ?A = "array_value args (3 + nat nk) ?n2"
  let ?c = "array_out_of_range args 3 (to_int nk) \<or> array_out_of_range args (3 + nat nk) ?n2"
  let ?idx = "[3 ..< 3 + nat nk]"
  have bind: "Option.bind (luaSetGlobalArray ''KEYS'' args 3 (to_int nk) l)
                (luaSetGlobalArray ''ARGV'' args (3 + nat nk) ?n2)
              = (if ?c then None
                 else Some (l\<lparr>globals := (globals l)(''KEYS'' \<mapsto> ?K, ''ARGV'' \<mapsto> ?A),
                             trace := trace l @ [EvSetGlobal ''KEYS'' ?K, EvSetGlobal ''ARGV'' ?A]\<rparr>))"
    for l :: "'a LuaState"
    by (simp add: luaSetGlobalArray_alt)
  obtain res x' where scr: "\<forall>ls. rand ls = x \<longrightarrow>
      rng_script env (calls fnv) [] ls = (res, ls\<lparr>rand := x'\<rparr>)"
    using rng_script_frame [of x env "calls fnv" "[]"] by blast
  show ?thesis
  proof (cases ?c)
    case True
    have "\<forall>l. hd (stack l) = fnv \<and> updateFakeClient s (fakeSess l) = fake \<and> rand l = x \<longrightarrow>
             run_resolved env s args nk fn l = (Inl UndefinedBehaviour, l)"
      using True by (simp add: run_resolved_def bind)
    then show ?thesis
      by (intro exI [of _ "Inl UndefinedBehaviour"]) simp
  next
    case c: False
    show ?thesis
    proof (cases "getAllKeysLocked env fake args ?idx")
      case (Some status)
      have "\<forall>l. hd (stack l) = fnv \<and> updateFakeClient s (fakeSess l) = fake \<and> rand l = x \<longrightarrow>
               fst (run_resolved env s args nk fn l) = Inl (LockStatus status)
               \<and> globals (snd (run_resolved env s args nk fn l))
                   = (globals l)(''KEYS'' \<mapsto> ?K, ''ARGV'' \<mapsto> ?A)
               \<and> fakeSess (snd (run_resolved env s args nk fn l)) = Some fake"
        using c Some by (simp add: run_resolved_def bind Let_def)
      then show ?thesis
        by (intro exI [of _ "Inl (LockStatus status)"]) (auto simp: updateFakeClient_idem)
    next
      case None
      have "fst (run_resolved env s args nk fn l) = reply_of_call fn res
            \<and> globals (snd (run_resolved env s args nk fn l))
                   = (globals l)(''KEYS'' \<mapsto> ?K, ''ARGV'' \<mapsto> ?A)
            \<and> fakeSess (snd (run_resolved env s args nk fn l)) = Some fake"
        if l: "hd (stack l) = fnv" "updateFakeClient s (fakeSess l) = fake" "rand l = x"
        for l :: "'a LuaState"
      proof (cases res)
        case (Inl msg)
        then show ?thesis
          using c None l scr rng
          by (simp add: run_resolved_def bind Let_def reply_of_call_def)
      next
        case (Inr v)
        then show ?thesis
          using c None l scr rng
          by (cases "luaValueToRedisReply v")
             (simp_all add: run_resolved_def bind Let_def reply_of_call_def)
      qed
      then show ?thesis
        by (intro exI [of _ "reply_of_call fn res"]) (auto simp: updateFakeClient_idem)
    qed
  qed
qed

text \<open>The resolution when the lookup finds nothing and the function is compiled.\<close>

lemma resolve_function_create:
  assumes "global_value ls fn = LNil"
  shows "fst (resolve_function env False body fn ls) = create_outcome env body fn
         \<and> fakeSess (snd (resolve_function env False body fn ls)) = fakeSess ls
         \<and> rand (snd (resolve_function env False body fn ls)) = rand ls
         \<and> (create_outcome env body fn = Inr () \<longrightarrow>
               hd (stack (snd (resolve_function env False body fn ls))) = LFunction body
               \<and> global_value (snd (resolve_function env False body fn ls)) fn = LFunction body)
         \<and> (create_outcome env body fn \<noteq> Inr () \<longrightarrow>
               global_value (snd (resolve_function env False body fn ls)) fn = LNil)"
proof -
  let ?def = "''function '' @ (''f_'' @ sha1hex env body) @ ''() '' @ body @ [LF] @ ''end''"
  show ?thesis
  proof (cases "luaL_loadbuffer env ?def")
    case (Some msg)
    with assms show ?thesis
      by (simp add: resolve_function_def luaCreateFunction_def lua_getglobal_def
          global_value_def create_outcome_def Let_def)
  next
    case None
    note load = this
    show ?thesis
    proof (cases "lua_pcall_chunk env ?def")
      case (Some msg)
      with assms load show ?thesis
        by (simp add: resolve_function_def luaCreateFunction_def lua_getglobal_def
            global_value_def create_outcome_def Let_def)
    next
      case None
      with assms load show ?thesis
        by (cases "fn = ''f_'' @ sha1hex env body")
           (simp_all add: resolve_function_def luaCreateFunction_def lua_getglobal_def
              global_value_def create_outcome_def Let_def)
    qed
  qed
qed

lemma resolve_function_found_fields:
  assumes "global_value ls fn \<noteq> LNil"
  shows "fst (resolve_function env evalsha body fn ls) = Inr ()
         \<and> hd (stack (snd (resolve_function env evalsha body fn ls))) = global_value ls fn
         \<and> global_value (snd (resolve_function env evalsha body fn ls)) fn = global_value ls fn
         \<and> fakeSess (snd (resolve_function env evalsha body fn ls)) = fakeSess ls
         \<and> rand (snd (resolve_function env evalsha body fn ls)) = rand ls"
  unfolding resolve_function_found [OF assms]
  by (simp add: lua_getglobal_def global_value_def)

lemma resolve_function_noscript_fields:
  assumes "global_value ls fn = LNil"
  shows "fst (resolve_function env True body fn ls)
           = Inl (ERR_LUA (''-NOSCRIPT No matching script. Please use EVAL.'' @ CRLF))
         \<and> global_value (snd (resolve_function env True body fn ls)) fn = LNil"
  unfolding resolve_function_noscript [OF assms]
  using assms by (simp add: global_value_def)

lemma function_name_not_array:
  "function_name env evalsha body residue \<noteq> ''KEYS''"
  "function_name env evalsha body residue \<noteq> ''ARGV''"
  by (simp_all add: function_name_def)

lemma reset_run_fields:
  "global_value (reset_run s ls) name = global_value ls name"
  "fakeSess (reset_run s ls) = fakeSess ls"
  "rand (reset_run s ls) = redisSrand48 0"
  by (simp_all add: reset_run_def global_value_def)

lemma evalGenericCommand_resolved:
  assumes "\<not> length (sess_args s) < 3"
    and "stoll (sess_args s ! 2) = Some nk"
    and "\<not> to_int (int (length (sess_args s)) - 3) < nk" "\<not> nk < 0"
  shows "evalGenericCommand env s evalsha residue ls
         = (case resolve_function env evalsha (sess_args s ! 1)
                   (function_name env evalsha (sess_args s ! 1) residue) (reset_run s ls) of
              (Inl e, ls2) \<Rightarrow> (Inl e, ls2)
            | (Inr u, ls2) \<Rightarrow>
                run_resolved env s (sess_args s) nk
                  (function_name env evalsha (sess_args s ! 1) residue) ls2)"
  using assms
  by (simp add: evalGenericCommand_def reset_run_def Let_def del: One_nat_def)

lemma evalGenericCommand_run:
  assumes "\<not> length (sess_args s) < 3"
    and "stoll (sess_args s ! 2) = Some nk"
    and "\<not> to_int (int (length (sess_args s)) - 3) < nk" "\<not> nk < 0"
    and "fst (resolve_function env evalsha (sess_args s ! 1)
                (function_name env evalsha (sess_args s ! 1) residue) (reset_run s ls)) = Inr ()"
  shows "evalGenericCommand env s evalsha residue ls
         = run_resolved env s (sess_args s) nk
             (function_name env evalsha (sess_args s ! 1) residue)
             (snd (resolve_function env evalsha (sess_args s ! 1)
                     (function_name env evalsha (sess_args s ! 1) residue) (reset_run s ls)))"
proof -
  let ?res = "resolve_function env evalsha (sess_args s ! 1)
                (function_name env evalsha (sess_args s ! 1) residue) (reset_run s ls)"
  show ?thesis
    unfolding evalGenericCommand_resolved [OF assms(1-4)]
    using assms(5) by (cases ?res) auto
qed

lemma evalGenericCommand_fail:
  assumes "\<not> length (sess_args s) < 3"
    and "stoll (sess_args s ! 2) = Some nk"
    and "\<not> to_int (int (length (sess_args s)) - 3) < nk" "\<not> nk < 0"
    and "fst (resolve_function env evalsha (sess_args s ! 1)
                (function_name env evalsha (sess_args s ! 1) residue) (reset_run s ls)) = Inl e"
  shows "evalGenericCommand env s evalsha residue ls
         = (Inl e, snd (resolve_function env evalsha (sess_args s ! 1)
                     (function_name env evalsha (sess_args s ! 1) residue) (reset_run s ls)))"
proof -
  let ?res = "resolve_function env evalsha (sess_args s ! 1)
                (function_name env evalsha (sess_args s ! 1) residue) (reset_run s ls)"
  show ?thesis
    unfolding evalGenericCommand_resolved [OF assms(1-4)]
    using assms(5) by (cases ?res) auto
qed

lemma run_resolved_same:
  assumes rng: "\<forall>f l. lua_pcall_function env f l = rng_script env (calls f) [] l"
    and fn: "fn \<noteq> ''KEYS''" "fn \<noteq> ''ARGV''"
  shows "\<exists>out. \<forall>l. hd (stack l) = g \<and> updateFakeClient s (fakeSess l) = fake
                  \<and> rand l = redisSrand48 0 \<longrightarrow> same_run env s args nk fn fake out l"
proof -
  obtain out where out: "\<forall>l. hd (stack l) = g \<and> updateFakeClient s (fakeSess l) = fake
        \<and> rand l = redisSrand48 0 \<longrightarrow>
           fst (run_resolved env s args nk fn l) = out
           \<and> (\<forall>name. name \<noteq> ''KEYS'' \<and> name \<noteq> ''ARGV'' \<longrightarrow>
                 globals (snd (run_resolved env s args nk fn l)) name = globals l name)
           \<and> updateFakeClient s (fakeSess (snd (run_resolved env s args nk fn l))) = fake"
    using run_resolved_rng [OF rng, of g s fake "redisSrand48 0" args nk fn] by blast
  have "same_run env s args nk fn fake out l"
    if "hd (stack l) = g" "updateFakeClient s (fakeSess l) = fake" "rand l = redisSrand48 0"
    for l :: "'a LuaState"
  proof -
    from out that have r: "fst (run_resolved env s args nk fn l) = out"
      "globals (snd (run_resolved env s args nk fn l)) fn = globals l fn"
      "updateFakeClient s (fakeSess (snd (run_resolved env s args nk fn l))) = fake"
      using fn by blast+
    then show ?thesis
      by (simp add: same_run_def global_value_def)
  qed
  then show ?thesis by blast
qed

text \<open>A run that finds its function compiled.\<close>

lemma evalGenericCommand_found:
  assumes out: "\<forall>l. hd (stack l) = g \<and> updateFakeClient s (fakeSess l) = fake
                  \<and> rand l = redisSrand48 0 \<longrightarrow>
                  same_run env s (sess_args s) nk
                    (function_name env evalsha (sess_args s ! 1) residue) fake out l"
    and chk: "\<not> length (sess_args s) < 3" "stoll (sess_args s ! 2) = Some nk"
      "\<not> to_int (int (length (sess_args s)) - 3) < nk" "\<not> nk < 0"
    and g: "g \<noteq> LNil"
    and l: "global_value l (function_name env evalsha (sess_args s ! 1) residue) = g"
      "updateFakeClient s (fakeSess l) = fake"
  shows "fst (evalGenericCommand env s evalsha residue l) = out"
proof -
  let ?fn = "function_name env evalsha (sess_args s ! 1) residue"
  let ?args = "sess_args s"
  let ?res = "resolve_function env evalsha (?args ! 1) ?fn (reset_run s l)"
  have ne: "global_value (reset_run s l) ?fn \<noteq> LNil"
    using l(1) g by (simp add: reset_run_fields)
  note f = resolve_function_found_fields [OF ne, of env evalsha "?args ! 1"]
  have E: "evalGenericCommand env s evalsha residue l
           = run_resolved env s ?args nk ?fn (snd ?res)"
    using f by (intro evalGenericCommand_run [OF chk]) (simp add: reset_run_fields)
  have pre: "hd (stack (snd ?res)) = g" "updateFakeClient s (fakeSess (snd ?res)) = fake"
    "rand (snd ?res) = redisSrand48 0"
    using f l by (simp_all add: reset_run_fields)
  with out have "same_run env s ?args nk ?fn fake out (snd ?res)"
    by blast
  then show ?thesis
    unfolding E by (simp add: same_run_def)
qed

text \<open>A run whose function is resolved: what the run leaves for the next one.\<close>

lemma evalGenericCommand_leaves:
  assumes out: "\<forall>l. hd (stack l) = g \<and> updateFakeClient s (fakeSess l) = fake
                  \<and> rand l = redisSrand48 0 \<longrightarrow>
                  same_run env s (sess_args s) nk
                    (function_name env evalsha (sess_args s ! 1) residue) fake out l"
    and chk: "\<not> length (sess_args s) < 3" "stoll (sess_args s ! 2) = Some nk"
      "\<not> to_int (int (length (sess_args s)) - 3) < nk" "\<not> nk < 0"
    and res: "fst (resolve_function env evalsha (sess_args s ! 1)
                (function_name env evalsha (sess_args s ! 1) residue) (reset_run s l)) = Inr ()"
      "hd (stack (snd (resolve_function env evalsha (sess_args s ! 1)
                (function_name env evalsha (sess_args s ! 1) residue) (reset_run s l)))) = g"
      "global_value (snd (resolve_function env evalsha (sess_args s ! 1)
                (function_name env evalsha (sess_args s ! 1) residue) (reset_run s l)))
          (function_name env evalsha (sess_args s ! 1) residue) = g"
      "fakeSess (snd (resolve_function env evalsha (sess_args s ! 1)
                (function_name env evalsha (sess_args s ! 1) residue) (reset_run s l)))
         = fakeSess l"
      "rand (snd (resolve_function env evalsha (sess_args s ! 1)
                (function_name env evalsha (sess_args s ! 1) residue) (reset_run s l)))
         = redisSrand48 0"
    and l: "updateFakeClient s (fakeSess l) = fake"
  shows "fst (evalGenericCommand env s evalsha residue l) = out
         \<and> global_value (snd (evalGenericCommand env s evalsha residue l))
               (function_name env evalsha (sess_args s ! 1) residue) = g
         \<and> updateFakeClient s (fakeSess (snd (evalGenericCommand env s evalsha residue l))) = fake"
proof -
  let ?fn = "function_name env evalsha (sess_args s ! 1) residue"
  let ?args = "sess_args s"
  let ?res = "resolve_function env evalsha (?args ! 1) ?fn (reset_run s l)"
  have E: "evalGenericCommand env s evalsha residue l
           = run_resolved env s ?args nk ?fn (snd ?res)"
    by (rule evalGenericCommand_run [OF chk res(1)])
  have "same_run env s ?args nk ?fn fake out (snd ?res)"
    using out res(2,4,5) l by simp
  then show ?thesis
    unfolding E using res(3) by (simp add: same_run_def)
qed

lemma redis_math_random_env:
  assumes "luaL_checkint env = luaL_checkint env'"
  shows "redis_math_random env ls = redis_math_random env' ls"
  unfolding redis_math_random_def assms by (rule refl)

lemma rng_script_env:
  assumes "luaL_checkint env = luaL_checkint env'"
  shows "rng_script env cs acc ls = rng_script env' cs acc ls"
  by (induction cs arbitrary: acc ls)
     (simp_all add: redis_math_random_env [OF assms] Let_def cong: call_result.case_cong)

lemma rng_env_script:
  "lua_pcall_function rng_env f l = rng_script rng_env [[], [LNumber 10]] [] l"
  unfolding rng_env_def
  by (subst rng_script_env [where env' = test_env]) simp_all

lemma rng_script_example:
  "fst (rng_script test_env [[], [LNumber 10]] [] (test_state\<lparr>rand := redisSrand48 0\<rparr>))
     = Inr (LTable [(LNumber 1, LNumber (6154728638233443 / 36028797018963968)),
                    (LNumber 2, LNumber 8)])"
  by code_simp

lemma encode_example:
  "luaValueToRedisReply (LTable [(LNumber 1, LNumber (6154728638233443 / 36028797018963968)),
                    (LNumber 2, LNumber 8)]) = Some (''*2'' @ CRLF @ '':0'' @ CRLF @ '':8'' @ CRLF)"
  by code_simp

lemma rng_script_seeded:
  assumes "rand ls = redisSrand48 0"
  shows "fst (rng_script test_env [[], [LNumber 10]] [] ls)
     = Inr (LTable [(LNumber 1, LNumber (6154728638233443 / 36028797018963968)),
                    (LNumber 2, LNumber 8)])"
proof -
  obtain res x where f: "\<forall>l :: unit LuaState. rand l = redisSrand48 0 \<longrightarrow>
      rng_script test_env [[], [LNumber 10]] [] l = (res, l\<lparr>rand := x\<rparr>)"
    using rng_script_frame [of "redisSrand48 0" test_env "[[], [LNumber 10]]" "[]"] by blast
  from f have "rng_script test_env [[], [LNumber 10]] [] (test_state\<lparr>rand := redisSrand48 0\<rparr>)
               = (res, test_state\<lparr>rand := redisSrand48 0\<rparr>\<lparr>rand := x\<rparr>)"
    by (simp del: rng_script.simps)
  with rng_script_example have "res = Inr (LTable [(LNumber 1, LNumber (6154728638233443 / 36028797018963968)),
                    (LNumber 2, LNumber 8)])"
    by (simp del: rng_script.simps)
  with f assms show ?thesis by (simp del: rng_script.simps)
qed

lemma rng_env_fields:
  "getAllKeysLocked rng_env f args keyidx = None"
  "luaTimeLimit rng_env = 5000"
  "msSinceEpoch rng_env = 0"
  "luaL_loadbuffer rng_env chunk = None"
  "lua_pcall_chunk rng_env chunk = None"
  "lua_pcall_function rng_env fn = rng_script test_env [[], [LNumber 10]] []"
  "sha1hex rng_env script = sha1hex test_env script"
  by (simp_all add: rng_env_def test_env_def sha1hex_def hash_byte_def)

lemma rng_run_reply:
  "fst (evalGenericCommand rng_env rng_session False [] test_state)
     = Inr (''*2'' @ CRLF @ '':0'' @ CRLF @ '':8'' @ CRLF)"
  by (simp add: rng_session_def rng_env_fields rng_script_seeded encode_example run_defs
           del: rng_script.simps luaValueToRedisReply.simps)

section \<open>Claims about the reply translator\<close>

text \<open>
  C1 (as amended).  Decoding a wire reply and encoding the result gives the reply
  back for an integer of magnitude at most \<open>2^53\<close>, for a bulk string, for the
  nil bulk reply, for an error line without CR, LF and NUL, and for an array whose
  elements are well formed and round-trip.  The boolean false is always encoded as
  the nil bulk reply, which is not the nil array reply.
\<close>

theorem wire_roundtrip:
  "(- (2 ^ 53) \<le> i \<and> i \<le> 2 ^ 53 \<longrightarrow> round_trips (Integer i))
   \<and> (length s < 2 ^ 63 \<longrightarrow> round_trips (Bulk s))
   \<and> round_trips Nil
   \<and> (CR \<notin> set e \<and> LF \<notin> set e \<and> NUL \<notin> set e \<longrightarrow> round_trips (Error e))
   \<and> (length rs < 2 ^ 31 \<and> (\<forall>r \<in> set rs. well_formed r \<and> round_trips r)
        \<longrightarrow> round_trips (Array rs))
   \<and> luaReplyToRedisReply (LBoolean False # lua) = Some (fmtNull, lua)
   \<and> fmtNull \<noteq> wire NilArray"
proof (intro conjI impI)
  assume i: "- (2 ^ 53) \<le> i \<and> i \<le> 2 ^ 53"
  then have wf: "well_formed (Integer i)" by simp
  have "to_int64 (of_int i) = Some i" using i by (intro to_int64_of_int) simp_all
  then show "round_trips (Integer i)"
    using i by (simp add: round_trips_iff [OF wf] to_lua_Number_exact)
next
  assume "length s < 2 ^ 63"
  then show "round_trips (Bulk s)" by (simp add: round_trips_iff)
next
  show "round_trips Nil" by (simp add: round_trips_iff)
next
  assume "CR \<notin> set e \<and> LF \<notin> set e \<and> NUL \<notin> set e"
  then show "round_trips (Error e)"
    by (simp add: round_trips_iff lua_rawget_def strmapchars_id c_string_id)
next
  assume a: "length rs < 2 ^ 31 \<and> (\<forall>r \<in> set rs. well_formed r \<and> round_trips r)"
  then have wf: "well_formed (Array rs)" by simp
  have "\<And>x. x \<in> set rs \<Longrightarrow> luaValueToRedisReply (decoded_value x) = Some (wire x)"
    using a round_trips_iff by blast
  then show "round_trips (Array rs)"
    unfolding round_trips_iff [OF wf] by (rule encode_array)
next
  show "luaReplyToRedisReply (LBoolean False # lua) = Some (fmtNull, lua)" by simp
next
  show "fmtNull \<noteq> wire NilArray" by (simp add: fmtNull_def)
qed



theorem wire_roundtrip_witness:
  "round_trips (Integer 42) \<and> round_trips (Bulk ''hello'') \<and> round_trips (Error ''ERR bad'')
   \<and> round_trips (Array [Integer 1, Bulk ''a''])"
proof -
  have elems: "round_trips (Integer 1) \<and> round_trips (Bulk ''a'')"
    using wire_roundtrip [of 1 "''a''" "[]" "[]" "[]"] by simp
  have "\<forall>r \<in> set [Integer 1, Bulk ''a'']. well_formed r \<and> round_trips r"
    using elems by simp
  then show ?thesis
    using wire_roundtrip [of 42 "''hello''" "''ERR bad''" "[Integer 1, Bulk ''a'']" "[]"]
    by (simp add: CR_def LF_def NUL_def)
qed

text \<open>
  C1 as stated fails: a status reply comes back as a bulk reply, the integer
  \<open>2^53 + 1\<close> comes back as \<open>2^53\<close>, and an error line with an LF comes
  back with a space.
\<close>

theorem roundtrip_counterexample:
  "\<not> round_trips (Status ''OK'')
   \<and> \<not> round_trips (Integer 9007199254740993)
   \<and> \<not> round_trips (Error [CHR ''a'', LF, CHR ''b''])"
proof (intro conjI)
  have wf: "well_formed (Status ''OK'')"
    by (simp add: CR_def NUL_def)
  show "\<not> round_trips (Status ''OK'')"
    unfolding round_trips_iff [OF wf] by code_simp
next
  have wf: "well_formed (Integer 9007199254740993)"
    by simp
  have "to_lua_Number 9007199254740993 = 9007199254740992"
    by code_simp
  then have enc: "luaValueToRedisReply (decoded_value (Integer 9007199254740993))
                  = Some (fmtLongLong 9007199254740992)"
    by (simp add: to_int64_def)
  have "to_string 9007199254740992 \<noteq> to_string 9007199254740993"
  proof
    assume "to_string 9007199254740992 = to_string 9007199254740993"
    then have "stoll (to_string 9007199254740992) = stoll (to_string 9007199254740993)"
      by simp
    then show False
      by (simp add: stoll_to_string)
  qed
  then show "\<not> round_trips (Integer 9007199254740993)"
    unfolding round_trips_iff [OF wf] enc by (simp add: fmtLongLong_def)
next
  have wf: "well_formed (Error [CHR ''a'', LF, CHR ''b''])"
    by (simp add: CR_def NUL_def LF_def)
  show "\<not> round_trips (Error [CHR ''a'', LF, CHR ''b''])"
    unfolding round_trips_iff [OF wf] by code_simp
qed

text \<open>
  C2.  A table with a string \<open>ok\<close> field and no \<open>err\<close> field is encoded by
  \<open>fmtBulk\<close>: the reply is a bulk reply, not the status line.
\<close>

theorem encode_ok_table_is_bulk:
  "luaReplyToRedisReply [LTable [(LString ''ok'', LString ''OK'')]]
     = Some (''$2'' @ CRLF @ ''OK'' @ CRLF, [])
   \<and> luaReplyToRedisReply [LTable [(LString ''ok'', LString ''OK'')]]
     \<noteq> Some (''+OK'' @ CRLF, [])"
  by code_simp

text \<open>
  C10.  When the first byte of the buffer is none of the five grammar tags (the
  buffer may also be empty, its first byte then being the terminator), the decoder
  pushes nothing and returns its input pointer.
\<close>

theorem decode_unknown_tag_no_progress:
  assumes "reply = [] \<or> hd reply \<notin> grammar_tags"
  shows "redisProtocolToLuaType lua reply = Some (lua, reply)"
  using assms
  by (subst redisProtocolToLuaType_def, subst redisProtocolToLuaType_rec.simps)
     (auto simp: grammar_tags_def Let_def)

theorem decode_unknown_tag_no_progress_witness:
  "redisProtocolToLuaType [LString ''GET''] ''?5'' = Some ([LString ''GET''], ''?5'')
   \<and> redisProtocolToLuaType [] [] = Some ([], [])"
  using decode_unknown_tag_no_progress [of "''?5''" "[LString ''GET'']"]
        decode_unknown_tag_no_progress [of "[]" "[]"]
  by (simp add: grammar_tags_def)

section \<open>Claims about the gateway\<close>

text \<open>
  C3.  While single-command replication is off, a write command called after the
  random-dirty flag was set is rejected with the fixed error (raised under
  \<open>redis.call\<close>, returned under \<open>redis.pcall\<close>) and is not passed to the
  executor.  The gateway never clears the random-dirty or the write-dirty flag,
  and whenever it passes a command to the executor it has set the random-dirty
  flag for a command marked random and the write-dirty flag for a command marked
  write.
\<close>

theorem write_after_random_rejected:
  "(sess ls = Some s \<and> inuse ls = 0 \<and> stack ls \<noteq> []
      \<and> length (call_args env ls) = length (stack ls)
      \<and> precheck env ((call_session s ls)\<lparr>sess_args := call_args env ls\<rparr>) = Inr name
      \<and> commandMap env (toLower (hd (call_args env ls))) = Some command
      \<and> \<not> cmd_noscript command \<and> cmd_write command
      \<and> lua_random_dirty ls \<and> \<not> lua_replicate_commands ls
    \<longrightarrow> fst (luaRedisGenericCommand env raise_error ls)
          = (if raise_error then Raised (LString (error_message env write_after_random_error))
             else Returned 1)
        \<and> stack (snd (luaRedisGenericCommand env raise_error ls))
          = LTable [(LString ''err'', LString (error_message env write_after_random_error))] # stack ls
        \<and> trace (snd (luaRedisGenericCommand env raise_error ls)) = trace ls
        \<and> store (snd (luaRedisGenericCommand env raise_error ls)) = store ls)
   \<and> (lua_random_dirty ls \<longrightarrow> lua_random_dirty (snd (luaRedisGenericCommand env raise_error ls)))
   \<and> (lua_write_dirty ls \<longrightarrow> lua_write_dirty (snd (luaRedisGenericCommand env raise_error ls)))
   \<and> (trace (snd (luaRedisGenericCommand env raise_error ls)) \<noteq> trace ls \<longrightarrow>
        (\<exists>cmd. commandMap env (toLower (hd (call_args env ls))) = Some cmd
           \<and> trace (snd (luaRedisGenericCommand env raise_error ls))
               = trace ls @ [EvRunSessionCmd (call_args env ls)]
           \<and> (cmd_random cmd \<longrightarrow> lua_random_dirty (snd (luaRedisGenericCommand env raise_error ls)))
           \<and> (cmd_write cmd \<longrightarrow> lua_write_dirty (snd (luaRedisGenericCommand env raise_error ls)))))"
  (is "?reject \<and> ?rand \<and> ?write \<and> ?dispatch")
proof -
  let ?G = "luaRedisGenericCommand env raise_error ls"
  have reject: ?reject
  proof (intro impI, elim conjE)
    assume a: "sess ls = Some s" "inuse ls = 0" "stack ls \<noteq> []"
      "length (call_args env ls) = length (stack ls)"
      and pre: "precheck env ((call_session s ls)\<lparr>sess_args := call_args env ls\<rparr>) = Inr name"
      and cmd: "commandMap env (toLower (hd (call_args env ls))) = Some command"
        "\<not> cmd_noscript command" "cmd_write command"
        "lua_random_dirty ls" "\<not> lua_replicate_commands ls"
    let ?ls1 = "ls\<lparr>fakeSess := Some (call_session s ls), inuse := 1\<rparr>"
    have "gateway_guarded env raise_error (call_args env ls) s (call_session s ls) ?ls1
          = Some (Return1 raise_error,
                  ?ls1\<lparr>fakeSess := Some ((call_session s ls)\<lparr>sess_args := call_args env ls\<rparr>),
                        stack := luaPushError env write_after_random_error (stack ls)\<rparr>)"
      using pre cmd by (simp add: gateway_guarded_def Let_def)
    then have "?G = ((if raise_error
                      then luaRaiseError (luaPushError env write_after_random_error (stack ls))
                      else Returned 1),
                     ?ls1\<lparr>fakeSess := Some ((call_session s ls)\<lparr>sess_args := call_args env ls\<rparr>),
                           stack := luaPushError env write_after_random_error (stack ls),
                           inuse := 0\<rparr>)"
      by (simp add: luaRedisGenericCommand_guarded [OF a])
    then show "fst ?G = (if raise_error
                  then Raised (LString (error_message env write_after_random_error))
                  else Returned 1)
        \<and> stack (snd ?G)
          = LTable [(LString ''err'', LString (error_message env write_after_random_error))] # stack ls
        \<and> trace (snd ?G) = trace ls \<and> store (snd ?G) = store ls"
      by (simp add: luaPushError_eq lua_rawget_def)
  qed
  have rest: "?rand \<and> ?write \<and> ?dispatch"
  proof (cases "\<exists>s. sess ls = Some s \<and> inuse ls = 0 \<and> stack ls \<noteq> []
                     \<and> length (call_args env ls) = length (stack ls)")
    case False
    then have "trace (snd ?G) = trace ls \<and> lua_random_dirty (snd ?G) = lua_random_dirty ls
               \<and> lua_write_dirty (snd ?G) = lua_write_dirty ls"
      by (cases "sess ls")
         (auto simp: luaRedisGenericCommand_def call_args_def Let_def)
    then show ?thesis by simp
  next
    case True
    then obtain s' where a: "sess ls = Some s'" "inuse ls = 0" "stack ls \<noteq> []"
      "length (call_args env ls) = length (stack ls)" by blast
    let ?ls1 = "ls\<lparr>fakeSess := Some (call_session s' ls), inuse := 1\<rparr>"
    show ?thesis
    proof (cases "gateway_guarded env raise_error (call_args env ls) s' (call_session s' ls) ?ls1")
      case None
      then have "snd ?G = ls" by (simp add: luaRedisGenericCommand_guarded [OF a])
      then show ?thesis by simp
    next
      case (Some r)
      then have G: "snd ?G = snd r \<or> snd ?G = (snd r)\<lparr>inuse := inuse (snd r) - 1\<rparr>"
        by (cases r; cases "fst r") (simp_all add: luaRedisGenericCommand_guarded [OF a])
      from Some have "gateway_guarded env raise_error (call_args env ls) s' (call_session s' ls) ?ls1
                      = Some (fst r, snd r)" by simp
      from gateway_guarded_cases [OF this] G show ?thesis
        by auto
    qed
  qed
  from reject rest show ?thesis by blast
qed


theorem write_after_random_rejected_witness:
  "fst (luaRedisGenericCommand test_env True rejected_write_state)
     = Raised (LString write_after_random_error)
   \<and> fst (luaRedisGenericCommand test_env False rejected_write_state) = Returned 1
   \<and> trace (snd (luaRedisGenericCommand test_env True rejected_write_state)) = []
   \<and> trace (snd (luaRedisGenericCommand test_env False rejected_write_state)) = []"
proof -
  have args: "call_args test_env rejected_write_state = [''set'', ''k'', ''v'']"
    by (simp add: call_args_def rejected_write_state_def test_state_def)
  have hyp: "sess rejected_write_state = Some (test_session [''eval'', ''...'', ''0''])
      \<and> inuse rejected_write_state = 0 \<and> stack rejected_write_state \<noteq> []
      \<and> length (call_args test_env rejected_write_state) = length (stack rejected_write_state)
      \<and> precheck test_env ((call_session (test_session [''eval'', ''...'', ''0'']) rejected_write_state)
            \<lparr>sess_args := call_args test_env rejected_write_state\<rparr>) = Inr ''set''
      \<and> commandMap test_env (toLower (hd (call_args test_env rejected_write_state)))
          = Some \<lparr>cmd_noscript = False, cmd_write = True,
                   cmd_random = False, cmd_sort_for_script = False\<rparr>
      \<and> lua_random_dirty rejected_write_state \<and> \<not> lua_replicate_commands rejected_write_state"
    unfolding args
    by (simp add: rejected_write_state_def test_state_def test_env_def toLower_def toLower_char_def)
  have msg: "error_message test_env write_after_random_error = write_after_random_error"
    by (simp add: error_message_def test_env_def)
  show ?thesis
    using hyp
      write_after_random_rejected [where ls = rejected_write_state and env = test_env
        and s = "test_session [''eval'', ''...'', ''0'']" and name = "''set''"
        and command = "\<lparr>cmd_noscript = False, cmd_write = True,
                   cmd_random = False, cmd_sort_for_script = False\<rparr>" and raise_error = True]
      write_after_random_rejected [where ls = rejected_write_state and env = test_env
        and s = "test_session [''eval'', ''...'', ''0'']" and name = "''set''"
        and command = "\<lparr>cmd_noscript = False, cmd_write = True,
                   cmd_random = False, cmd_sort_for_script = False\<rparr>" and raise_error = False]
    by (simp add: msg rejected_write_state_def test_state_def)
qed




section \<open>C5: two runs of a script that only draws random numbers\<close>

text \<open>
  C5.  \<open>evalGenericCommand\<close> seeds the generator with 0 before anything else,
  so the generator state it starts from has no effect on the run; and when the
  script makes no external call and only draws from the generator, a second
  invocation of the same command, started in the state the first one left,
  gives the same reply as the first.
\<close>

theorem two_run_determinism:
  assumes rng: "\<forall>f l. lua_pcall_function env f l = rng_script env (calls f) [] l"
  shows "fst (evalGenericCommand env s evalsha residue
                (snd (evalGenericCommand env s evalsha residue ls)))
           = fst (evalGenericCommand env s evalsha residue ls)
         \<and> (\<forall>r. evalGenericCommand env s evalsha residue (ls\<lparr>rand := r\<rparr>)
                  = evalGenericCommand env s evalsha residue ls)"
proof (rule conjI)
  show "\<forall>r. evalGenericCommand env s evalsha residue (ls\<lparr>rand := r\<rparr>)
              = evalGenericCommand env s evalsha residue ls"
    by (simp add: evalGenericCommand_def)
next
  let ?args = "sess_args s"
  let ?body = "?args ! 1"
  let ?fn = "function_name env evalsha ?body residue"
  let ?E = "evalGenericCommand env s evalsha residue"
  let ?fake = "updateFakeClient s (fakeSess ls)"
  show "fst (?E (snd (?E ls))) = fst (?E ls)"
  proof (cases "length ?args < 3")
    case True
    then have "fst (?E l) = Inl UndefinedBehaviour" for l
      by (simp add: evalGenericCommand_def Let_def)
    then show ?thesis by (simp add: reset_run_fields)
  next
    case len: False
    show ?thesis
    proof (cases "stoll (?args ! 2)")
      case None
      with len have "fst (?E l) = Inl (StollStatus (?args ! 2))" for l
        by (simp add: evalGenericCommand_def Let_def)
      then show ?thesis by (simp add: reset_run_fields)
    next
      case (Some nk)
      show ?thesis
      proof (cases "to_int (int (length ?args) - 3) < nk \<or> nk < 0")
        case True
        with len Some have "fst (?E l) =
            (if to_int (int (length ?args) - 3) < nk
             then Inl (ERR_LUA ''Number of keys can't be greater than number of args'')
             else Inl (ERR_LUA ''Number of keys can't be negative''))" for l
          by (auto simp add: evalGenericCommand_def Let_def)
        then show ?thesis by (simp add: reset_run_fields)
      next
        case False
        then have rest: "\<not> to_int (int (length ?args) - 3) < nk" "\<not> nk < 0"
          by (simp_all add: reset_run_fields)
        note chk = len Some rest
        show ?thesis
        proof (cases "global_value ls ?fn = LNil")
          case found: False
          obtain out where out: "\<forall>l. hd (stack l) = global_value ls ?fn
              \<and> updateFakeClient s (fakeSess l) = ?fake \<and> rand l = redisSrand48 0 \<longrightarrow>
              same_run env s ?args nk ?fn ?fake out l"
            using run_resolved_same [OF rng function_name_not_array] by blast
          have ne: "global_value (reset_run s ls) ?fn \<noteq> LNil"
            using found by (simp add: reset_run_fields)
          note f = resolve_function_found_fields [OF ne, of env evalsha ?body]
          have first: "fst (?E ls) = out
              \<and> global_value (snd (?E ls)) ?fn = global_value ls ?fn
              \<and> updateFakeClient s (fakeSess (snd (?E ls))) = ?fake"
            using f by (intro evalGenericCommand_leaves [OF out chk]) (simp_all add: reset_run_fields)
          have "fst (?E (snd (?E ls))) = out"
            using first by (intro evalGenericCommand_found [OF out chk found]) (simp_all add: reset_run_fields)
          with first show ?thesis by (simp add: reset_run_fields)
        next
          case missing: True
          then have nil: "global_value (reset_run s ls) ?fn = LNil"
            by (simp add: reset_run_fields)
          show ?thesis
          proof (cases evalsha)
            case True
            note f = resolve_function_noscript_fields [OF nil, of env ?body]
            have E1: "?E ls = (Inl (ERR_LUA (''-NOSCRIPT No matching script. Please use EVAL.'' @ CRLF)),
                        snd (resolve_function env evalsha ?body ?fn (reset_run s ls)))"
              using f True by (intro evalGenericCommand_fail [OF chk]) (simp add: reset_run_fields)
            have nil2: "global_value (reset_run s (snd (?E ls))) ?fn = LNil"
              using f True unfolding E1 by (simp add: reset_run_fields)
            note f2 = resolve_function_noscript_fields [OF nil2, of env ?body]
            have "fst (?E (snd (?E ls)))
                  = Inl (ERR_LUA (''-NOSCRIPT No matching script. Please use EVAL.'' @ CRLF))"
              using f2 True
              by (subst evalGenericCommand_fail [OF chk,
                    where e = "ERR_LUA (''-NOSCRIPT No matching script. Please use EVAL.'' @ CRLF)"])
                 (simp_all add: reset_run_fields)
            then show ?thesis
              by (simp add: E1)
          next
            case eval: False
            note c = resolve_function_create [OF nil, of env ?body]
            show ?thesis
            proof (cases "create_outcome env ?body ?fn")
              case (Inl e)
              have E1: "?E ls = (Inl e, snd (resolve_function env evalsha ?body ?fn (reset_run s ls)))"
                using c eval Inl by (intro evalGenericCommand_fail [OF chk]) (simp add: reset_run_fields)
              have nil2: "global_value (reset_run s (snd (?E ls))) ?fn = LNil"
                using c eval Inl unfolding E1 by (simp add: reset_run_fields)
              note c2 = resolve_function_create [OF nil2, of env ?body]
              have "fst (?E (snd (?E ls))) = Inl e"
                using c2 eval Inl
                by (subst evalGenericCommand_fail [OF chk, where e = e]) (simp_all add: reset_run_fields)
              then show ?thesis
                by (simp add: E1)
            next
              case (Inr u)
              then have ok: "create_outcome env ?body ?fn = Inr ()"
                by (simp add: reset_run_fields)
              obtain out where out: "\<forall>l. hd (stack l) = LFunction ?body
                  \<and> updateFakeClient s (fakeSess l) = ?fake \<and> rand l = redisSrand48 0 \<longrightarrow>
                  same_run env s ?args nk ?fn ?fake out l"
                using run_resolved_same [OF rng function_name_not_array] by blast
              have first: "fst (?E ls) = out
                  \<and> global_value (snd (?E ls)) ?fn = LFunction ?body
                  \<and> updateFakeClient s (fakeSess (snd (?E ls))) = ?fake"
                using c eval ok by (intro evalGenericCommand_leaves [OF out chk]) (simp_all add: reset_run_fields)
              have "fst (?E (snd (?E ls))) = out"
                using first by (intro evalGenericCommand_found [OF out chk]) (simp_all add: reset_run_fields)
              with first show ?thesis by (simp add: reset_run_fields)
            qed
          qed
        qed
      qed
    qed
  qed
qed

theorem two_run_determinism_witness:
  "fst (evalGenericCommand rng_env rng_session False []
          (snd (evalGenericCommand rng_env rng_session False [] test_state)))
     = Inr (''*2'' @ CRLF @ '':0'' @ CRLF @ '':8'' @ CRLF)
   \<and> fst (evalGenericCommand rng_env rng_session False [] test_state)
     = Inr (''*2'' @ CRLF @ '':0'' @ CRLF @ '':8'' @ CRLF)
   \<and> evalGenericCommand rng_env rng_session False [] (test_state\<lparr>rand := 7\<rparr>)
     = evalGenericCommand rng_env rng_session False [] test_state"
  using two_run_determinism [of rng_env "\<lambda>f. [[], [LNumber 10]]" rng_session False "[]" test_state]
  by (simp add: rng_env_script rng_run_reply)

section \<open>Claims about the runner\<close>

text \<open>
  C6.  A key count that is negative or greater than the number of arguments after
  the first three is rejected with an error; the interpreter is untouched (stack
  and globals are as before, and the only call logged is the seeding of the
  generator).
\<close>

theorem invalid_numkeys_rejected:
  assumes "3 \<le> length (sess_args s)"
    and "stoll (sess_args s ! 2) = Some numkeys"
    and "numkeys < 0 \<or> int (length (sess_args s)) - 3 < numkeys"
  shows "evalGenericCommand env s evalsha residue ls =
           (Inl (ERR_LUA (if to_int (int (length (sess_args s)) - 3) < numkeys
                          then ''Number of keys can't be greater than number of args''
                          else ''Number of keys can't be negative'')),
            reset_run s ls)
         \<and> stack (reset_run s ls) = stack ls
         \<and> globals (reset_run s ls) = globals ls
         \<and> trace (reset_run s ls) = trace ls @ [EvSrand48 0]"
proof -
  have "to_int (int (length (sess_args s)) - 3) \<le> int (length (sess_args s)) - 3"
    using assms(1) by (intro to_int_le) simp
  then have "to_int (int (length (sess_args s)) - 3) < numkeys \<or> numkeys < 0"
    using assms(3) by linarith
  then show ?thesis
    using assms(1,2)
    by (auto simp: evalGenericCommand_def reset_run_def Let_def)
qed

theorem invalid_numkeys_rejected_witness:
  "evalGenericCommand test_env (test_session [''eval'', ''return 1'', ''2'', ''k'']) False [] test_state
     = (Inl (ERR_LUA ''Number of keys can't be greater than number of args''),
        reset_run (test_session [''eval'', ''return 1'', ''2'', ''k'']) test_state)
   \<and> globals (reset_run (test_session [''eval'', ''return 1'', ''2'', ''k'']) test_state) = Map.empty
   \<and> trace (reset_run (test_session [''eval'', ''return 1'', ''2'', ''k'']) test_state) = [EvSrand48 0]"
proof -
  have "stoll ''2'' = Some 2"
    by (simp add: stoll_def parse_nat_def is_digit_def digit_val_def)
  then show ?thesis
    using invalid_numkeys_rejected [where s = "test_session [''eval'', ''return 1'', ''2'', ''k'']"
        and numkeys = 2 and env = test_env and evalsha = False and residue = "[]" and ls = test_state]
    by (simp add: test_session_def test_state_def to_int_def)
qed

text \<open>
  C7.  An \<open>EVALSHA\<close> request for a digest under which nothing is defined, made
  after the example run, with the name buffer still holding the name that run
  wrote: the function of the example run is called.
\<close>

theorem evalsha_runs_the_residual_name:
  "global_value (snd example_run) (''f_'' @ ''ffffffffffffffffffffffffffffffffffffffff'') = LNil
   \<and> fst (evalGenericCommand test_env
            (test_session [''evalsha'', ''ffffffffffffffffffffffffffffffffffffffff'', ''0''])
            True (sha1hex test_env ''return 1'') (snd example_run))
     = Inr ('':1'' @ CRLF)"
  by (simp add: example_run_def global_value_def c_string_def NUL_def run_defs)

text \<open>
  C8.  After a successful resolution of a body, the global named \<open>f_\<close> followed
  by the digest of the body holds a function, and it is the value the resolution
  left on top of the stack: the function compiled from the body when the name was
  free before, the function that was there otherwise.  Resolving the same body
  again (as \<open>EVAL\<close> or as \<open>EVALSHA\<close>) is then two lookups: it succeeds with
  that same function on top of the stack, nothing is compiled, no chunk is run and
  the globals are unchanged.
\<close>

theorem resolve_twice_is_lookup:
  assumes "resolve_function env False body (''f_'' @ sha1hex env body) ls = (Inr (), ls1)"
  shows "global_value ls1 (''f_'' @ sha1hex env body) \<noteq> LNil
         \<and> hd (stack ls1) = global_value ls1 (''f_'' @ sha1hex env body)
         \<and> (global_value ls (''f_'' @ sha1hex env body) = LNil \<longrightarrow>
               global_value ls1 (''f_'' @ sha1hex env body) = LFunction body)
         \<and> (global_value ls (''f_'' @ sha1hex env body) \<noteq> LNil \<longrightarrow>
               global_value ls1 (''f_'' @ sha1hex env body)
                 = global_value ls (''f_'' @ sha1hex env body))
         \<and> resolve_function env evalsha body (''f_'' @ sha1hex env body) ls1 =
             (Inr (),
              ls1\<lparr>stack := global_value ls1 (''f_'' @ sha1hex env body)
                           # global_value ls1 ''__redis__err__handler'' # stack ls1,
                  trace := trace ls1 @ [EvGetGlobal ''__redis__err__handler'',
                                        EvGetGlobal (''f_'' @ sha1hex env body)]\<rparr>)"
proof -
  let ?fn = "''f_'' @ sha1hex env body"
  from resolve_function_defines [OF assms]
  have d: "global_value ls1 ?fn \<noteq> LNil"
    and h: "hd (stack ls1) = global_value ls1 ?fn"
    by simp_all
  have ls1: "ls1 = snd (resolve_function env False body ?fn ls)"
    and ok: "fst (resolve_function env False body ?fn ls) = Inr ()"
    using assms by simp_all
  have fresh: "global_value ls1 ?fn = LFunction body" if "global_value ls ?fn = LNil"
    using resolve_function_create [OF that, of env body] ok unfolding ls1 by simp
  have kept: "global_value ls1 ?fn = global_value ls ?fn" if "global_value ls ?fn \<noteq> LNil"
    using resolve_function_found_fields [OF that, of env False body] unfolding ls1 by simp
  have again: "resolve_function env evalsha body ?fn ls1 =
             (Inr (),
              ls1\<lparr>stack := global_value ls1 ?fn
                           # global_value ls1 ''__redis__err__handler'' # stack ls1,
                  trace := trace ls1 @ [EvGetGlobal ''__redis__err__handler'',
                                        EvGetGlobal ?fn]\<rparr>)"
    unfolding resolve_function_found [OF d]
    by (simp add: lua_getglobal_def global_value_def)
  from d h fresh kept again show ?thesis
    by blast
qed

theorem resolve_twice_is_lookup_witness:
  "global_value (snd (resolve_function test_env False ''return 1''
                  (''f_'' @ sha1hex test_env ''return 1'') test_state))
     (''f_'' @ sha1hex test_env ''return 1'') = LFunction ''return 1''
   \<and> fst (resolve_function test_env True ''return 1'' (''f_'' @ sha1hex test_env ''return 1'')
          (snd (resolve_function test_env False ''return 1''
                  (''f_'' @ sha1hex test_env ''return 1'') test_state))) = Inr ()
   \<and> hd (stack (snd (resolve_function test_env True ''return 1''
          (''f_'' @ sha1hex test_env ''return 1'')
          (snd (resolve_function test_env False ''return 1''
                  (''f_'' @ sha1hex test_env ''return 1'') test_state))))) = LFunction ''return 1''
   \<and> trace (snd (resolve_function test_env True ''return 1'' (''f_'' @ sha1hex test_env ''return 1'')
          (snd (resolve_function test_env False ''return 1''
                  (''f_'' @ sha1hex test_env ''return 1'') test_state))))
     = trace (snd (resolve_function test_env False ''return 1''
                  (''f_'' @ sha1hex test_env ''return 1'') test_state))
       @ [EvGetGlobal ''__redis__err__handler'', EvGetGlobal (''f_'' @ sha1hex test_env ''return 1'')]"
proof -
  let ?fn = "''f_'' @ sha1hex test_env ''return 1''"
  let ?first = "resolve_function test_env False ''return 1'' ?fn test_state"
  have "fst ?first = Inr ()"
    by (simp add: resolve_function_def luaCreateFunction_def lua_getglobal_def test_env_fields
        test_state_def Let_def)
  then have first: "?first = (Inr (), snd ?first)"
    by (simp add: prod_eq_iff)
  have free: "global_value test_state ?fn = LNil"
    by (simp add: global_value_def test_state_def)
  from resolve_twice_is_lookup [OF first, of True] free show ?thesis
    by simp
qed

text \<open>
  C9 (as amended).  In an invocation that passes the key-count check and resolves
  its function, the seeding of the generator comes first, then the lookups and the
  compilation, then \<open>KEYS\<close> and \<open>ARGV\<close> are bound to new arrays holding
  exactly the declared keys and the remaining arguments, then the keys are locked.
\<close>

theorem keys_argv_bound_before_lock:
  assumes "3 \<le> length (sess_args s)" "length (sess_args s) < 2 ^ 31"
    and "stoll (sess_args s ! 2) = Some numkeys"
    and "0 \<le> numkeys" "numkeys \<le> int (length (sess_args s)) - 3"
    and "fst (resolve_function env evalsha (sess_args s ! 1)
                (function_name env evalsha (sess_args s ! 1) residue) (reset_run s ls)) = Inr ()"
    and "\<forall>f l. \<exists>t. trace (snd (lua_pcall_function env f l)) = trace l @ t"
  shows "\<exists>mid rest.
           trace (snd (evalGenericCommand env s evalsha residue ls)) =
             trace ls @ [EvSrand48 0] @ mid @
             [EvSetGlobal ''KEYS'' (LTable (array_of 0 (take (nat numkeys) (drop 3 (sess_args s))))),
              EvSetGlobal ''ARGV'' (LTable (array_of 0 (drop (3 + nat numkeys) (sess_args s)))),
              EvLockKeys [3 ..< 3 + nat numkeys]] @ rest
           \<and> list_all is_resolve_event mid"
proof -
  let ?args = "sess_args s"
  let ?fn = "function_name env evalsha (?args ! 1) residue"
  let ?res = "resolve_function env evalsha (?args ! 1) ?fn (reset_run s ls)"
  obtain mid where mid: "trace (snd ?res) = trace (reset_run s ls) @ mid"
    "list_all is_resolve_event mid"
    using resolve_function_trace by blast
  have res: "?res = (Inr (), snd ?res)"
    using assms(6) by (simp add: prod_eq_iff)
  have "to_int (int (length ?args) - 3) = int (length ?args) - 3"
    using assms(1,2) by (intro to_int_id) simp_all
  then have chk: "\<not> to_int (int (length ?args) - 3) < numkeys" "\<not> numkeys < 0"
    using assms(4,5) by simp_all
  have "evalGenericCommand env s evalsha residue ls
        = (case ?res of (Inl e, ls2) \<Rightarrow> (Inl e, ls2)
           | (Inr u, ls2) \<Rightarrow> run_resolved env s ?args numkeys ?fn ls2)"
    using assms(1,3) chk
    by (simp add: evalGenericCommand_def reset_run_def Let_def del: One_nat_def)
  also have "\<dots> = run_resolved env s ?args numkeys ?fn (snd ?res)"
    by (subst res) simp
  finally have E: "evalGenericCommand env s evalsha residue ls
                   = run_resolved env s ?args numkeys ?fn (snd ?res)" .
  obtain rest where rest:
    "trace (snd (run_resolved env s ?args numkeys ?fn (snd ?res))) =
       trace (snd ?res) @
       [EvSetGlobal ''KEYS'' (LTable (array_of 0 (take (nat numkeys) (drop 3 ?args)))),
        EvSetGlobal ''ARGV'' (LTable (array_of 0 (drop (3 + nat numkeys) ?args))),
        EvLockKeys [3 ..< 3 + nat numkeys]] @ rest"
    using run_resolved_trace [OF assms(4,5,2,7)] by blast
  have "trace (reset_run s ls) = trace ls @ [EvSrand48 0]"
    by (simp add: reset_run_def)
  with rest mid show ?thesis
    unfolding E by auto
qed

theorem keys_argv_bound_before_lock_witness:
  "\<exists>mid rest.
     trace (snd example_run) =
       [] @ [EvSrand48 0] @ mid @
       [EvSetGlobal ''KEYS'' (LTable [(LNumber 1, LString ''k'')]),
        EvSetGlobal ''ARGV'' (LTable [(LNumber 1, LString ''a'')]),
        EvLockKeys [3]] @ rest
     \<and> list_all is_resolve_event mid"
proof -
  let ?s = "test_session [''eval'', ''return 1'', ''1'', ''k'', ''a'']"
  have r: "fst (resolve_function test_env False (sess_args ?s ! 1)
                (function_name test_env False (sess_args ?s ! 1) []) (reset_run ?s test_state)) = Inr ()"
    by (simp add: reset_run_def run_defs)
  have e: "\<forall>f l. \<exists>t. trace (snd (lua_pcall_function test_env f l)) = trace l @ t"
    by (simp add: test_env_fields)
  have a: "3 \<le> length (sess_args ?s)" "length (sess_args ?s) < 2 ^ 31"
    "stoll (sess_args ?s ! 2) = Some 1" "(0::int) \<le> 1" "1 \<le> int (length (sess_args ?s)) - 3"
    by (simp_all add: test_session_def stoll_1)
  from keys_argv_bound_before_lock [OF a r e]
  show ?thesis
    by (simp add: example_run_def test_session_def test_state_def upt_rec [of 3])
qed

text \<open>
  C9 as stated fails: in the example run the generator is seeded at position 0 of
  the log, before \<open>KEYS\<close> and \<open>ARGV\<close> are bound at positions 6 and 7.
\<close>

theorem reseed_precedes_binding:
  "trace (snd example_run) ! 0 = EvSrand48 0
   \<and> trace (snd example_run) ! 6 = EvSetGlobal ''KEYS'' (LTable [(LNumber 1, LString ''k'')])
   \<and> trace (snd example_run) ! 7 = EvSetGlobal ''ARGV'' (LTable [(LNumber 1, LString ''a'')])
   \<and> trace (snd example_run) ! 8 = EvLockKeys [3]"
  by (simp add: example_run_trace)

end
